theory Spec2Isabelle
  imports Main "HOL-Library.Word"
begin

section \<open>Option validation of the seed tool (\<open>src/params.cpp\<close>)\<close>

text \<open>
  The unit under study is \<^verbatim>\<open>Params::validate\<close> with the eleven steps it calls and
  the handler \<^verbatim>\<open>parse_opt\<close> that runs it. \<^verbatim>\<open>argp_error\<close> prints a message and leaves
  the process (the parser is started with flags 0), so a call of it is the \<open>Inl\<close> branch
  of a sum; a C++ exception travels up to the \<^verbatim>\<open>catch\<close> of \<^verbatim>\<open>parse_opt\<close>, which calls
  \<^verbatim>\<open>argp_error\<close> with \<^verbatim>\<open>e.what()\<close>.
\<close>

subsection \<open>Reading decimal numbers: \<open>strtol\<close>, \<open>std::stoi\<close>, \<open>%zd\<close>\<close>

definition isspace :: "char \<Rightarrow> bool" where
  "isspace c = (c = CHR '' '' \<or> c = CHR 0x09 \<or> c = CHR 0x0A \<or> c = CHR 0x0B
                \<or> c = CHR 0x0C \<or> c = CHR 0x0D)"

definition isdigit :: "char \<Rightarrow> bool" where
  "isdigit c = (48 \<le> (of_char c :: nat) \<and> (of_char c :: nat) \<le> 57)"

definition digit_val :: "char \<Rightarrow> int" where
  "digit_val c = int (of_char c) - 48"

definition dec_value :: "string \<Rightarrow> int" where
  "dec_value ds = foldl (\<lambda>a c. 10 * a + digit_val c) 0 ds"

text \<open>
  The subject sequence of \<^verbatim>\<open>strtol(_, _, 10)\<close> and of the conversion \<^verbatim>\<open>%zd\<close>: white
  space is skipped, one sign is optional, then the longest run of decimal digits, which
  must not be empty. The result is the mathematical value and the unread rest.
\<close>

definition scan_sign :: "string \<Rightarrow> bool \<times> string" where
  "scan_sign s =
     (case s of
        [] \<Rightarrow> (False, [])
      | c # r \<Rightarrow> if c = CHR ''-'' then (True, r)
                 else if c = CHR ''+'' then (False, r)
                 else (False, s))"

definition scan_int :: "string \<Rightarrow> (int \<times> string) option" where
  "scan_int s =
     (let (neg, s2) = scan_sign (dropWhile isspace s);
          ds = takeWhile isdigit s2
      in if ds = [] then None
         else Some (if neg then - dec_value ds else dec_value ds, dropWhile isdigit s2))"

text \<open>The exceptions of the standard library that can be in flight, with their \<^verbatim>\<open>what()\<close>.\<close>

datatype exn = invalid_argument string | out_of_range string | runtime_error string

fun what :: "exn \<Rightarrow> string" where
  "what (invalid_argument m) = m"
| "what (out_of_range m) = m"
| "what (runtime_error m) = m"

text \<open>
  \<^verbatim>\<open>std::stoi\<close>: no digits is \<^verbatim>\<open>invalid_argument\<close>, a value that does not fit \<^verbatim>\<open>int\<close> is
  \<^verbatim>\<open>out_of_range\<close>; characters after the digits are ignored. The \<^verbatim>\<open>what()\<close> of both is
  the function's name (libstdc++).
\<close>

definition stoi :: "string \<Rightarrow> exn + int" where
  "stoi s =
     (case scan_int s of
        None \<Rightarrow> Inl (invalid_argument ''stoi'')
      | Some (v, r) \<Rightarrow>
          if v < - (2 ^ 31) \<or> 2 ^ 31 - 1 < v then Inl (out_of_range ''stoi'')
          else Inr v)"

type_synonym size_t = "64 word"

text \<open>
  \<^verbatim>\<open>%zd\<close> converts as \<^verbatim>\<open>strtol\<close> does for a signed 64-bit size: a value out of range is
  clamped to the nearest bound. The code stores it through a \<^verbatim>\<open>size_t*\<close>, so the bits are
  read back unsigned.
\<close>

definition ssize_clamp :: "int \<Rightarrow> int" where
  "ssize_clamp v = max (- (2 ^ 63)) (min v (2 ^ 63 - 1))"

definition scan_zd :: "string \<Rightarrow> (size_t \<times> string) option" where
  "scan_zd s =
     (case scan_int s of
        None \<Rightarrow> None
      | Some (v, r) \<Rightarrow> Some (word_of_int (ssize_clamp v), r))"

fun match_literal :: "string \<Rightarrow> string \<Rightarrow> string option" where
  "match_literal [] s = Some s"
| "match_literal (c # cs) [] = None"
| "match_literal (c # cs) (d # ds) = (if c = d then match_literal cs ds else None)"

text \<open>
  What \<^verbatim>\<open>sscanf(s, "%zd-of-%zd", &threshold, &count)\<close> leaves behind. The code only
  asks whether the returned number of items is 2, so the returns 0 and \<^verbatim>\<open>EOF\<close> are one
  case here.
\<close>

datatype scanned = NoItem | OneItem size_t | TwoItems size_t size_t

definition sscanf_zd_of_zd :: "string \<Rightarrow> scanned" where
  "sscanf_zd_of_zd s =
     (case scan_zd s of
        None \<Rightarrow> NoItem
      | Some (t, r) \<Rightarrow>
          (case match_literal ''-of-'' r of
             None \<Rightarrow> OneItem t
           | Some r' \<Rightarrow>
               (case scan_zd r' of
                  None \<Rightarrow> OneItem t
                | Some (n, r'') \<Rightarrow> TwoItems t n)))"

subsection \<open>Diagnostics\<close>

text \<open>
  One constructor for each call of \<^verbatim>\<open>argp_error\<close> in the file, carrying the arguments
  of its format string; \<open>Exception\<close> is a C++ exception that has not been caught yet,
  \<open>NullDeref\<close> a read through a null format pointer.
\<close>

datatype error =
    CountRange
  | UnknownInputFormat string
  | UnknownOutputFormat string
  | IncompatibleFormats string string
  | IntsRange
  | LowOnlyInts
  | HighOnlyInts
  | Bip39Count
  | CouldNotParseGroup string
  | InvalidGroupBounds string
  | InvalidGroupOneOfM
  | GroupOnlySlip39
  | GroupThresholdOnlySlip39
  | Slip39Count
  | TooManyGroups nat
  | GroupThresholdRange
  | NoArgsForRandom
  | NoInput
  | UnknownURType
  | CountNotForHex
  | CountNotForBC32
  | UrWithUrIn
  | UrOnlyHexBip39Slip39
  | ArgpWhat string
  | Exception exn
  | NullDeref

fun show_nat :: "nat \<Rightarrow> string" where
  "show_nat n =
     (if n < 10 then [char_of (48 + n)]
      else show_nat (n div 10) @ [char_of (48 + n mod 10)])"

declare show_nat.simps [simp del]

text \<open>The text each diagnostic prints (\<^verbatim>\<open>%s\<close> and \<^verbatim>\<open>%d\<close> filled in).\<close>

fun message :: "error \<Rightarrow> string" where
  "message CountRange = ''COUNT must be in [1-64].''"
| "message (UnknownInputFormat s) = ''Unknown input format: '' @ s"
| "message (UnknownOutputFormat s) = ''Unknown output format: '' @ s"
| "message (IncompatibleFormats i out) =
     ''Input format '' @ i @ '' cannot be used with output format '' @ out"
| "message IntsRange = ''--low and --high must specify a range in [0-255].''"
| "message LowOnlyInts =
     ''Option --low can only be used with the '' @ [CHR 0x22] @ ''ints'' @ [CHR 0x22]
       @ '' output format.''"
| "message HighOnlyInts =
     ''Option --high can only be used with the '' @ [CHR 0x22] @ ''ints'' @ [CHR 0x22]
       @ '' output format.''"
| "message Bip39Count = ''For BIP39 COUNT must be in [12-32] and even.''"
| "message (CouldNotParseGroup s) =
     ''Could not parse group specifier: '' @ [CHR 0x22] @ s @ [CHR 0x22]"
| "message (InvalidGroupBounds s) =
     ''Invalid group specifier '' @ [CHR 0x22] @ s @ [CHR 0x22] @ '': 1 <= N <= M <= 16''"
| "message InvalidGroupOneOfM =
     ''Invalid group specifier. 1-of-M groups where M > 1 are not supported.''"
| "message GroupOnlySlip39 =
     ''Option --group can only be used with the '' @ [CHR 0x22] @ ''slip39'' @ [CHR 0x22]
       @ '' output format.''"
| "message GroupThresholdOnlySlip39 =
     ''Option --group-threshold can only be used with the '' @ [CHR 0x22] @ ''slip39''
       @ [CHR 0x22] @ '' output format.''"
| "message Slip39Count = ''For BIP39 COUNT must be in [16-32] and even.''"
| "message (TooManyGroups n) = ''There must be no more than '' @ show_nat n @ '' groups.''"
| "message GroupThresholdRange = ''Group threshold must be <= the number of groups.''"
| "message NoArgsForRandom =
     ''Do not provide arguments when using the random (default) input format.''"
| "message NoInput = ''No input provided.''"
| "message UnknownURType = ''Unknown UR type.''"
| "message CountNotForHex = ''The --count option is not available for hex input.''"
| "message CountNotForBC32 = ''The --count option is not available for BC32 input.''"
| "message UrWithUrIn =
     ''The --ur option may not be combined with the --in ur input method.''"
| "message UrOnlyHexBip39Slip39 =
     ''The --ur option is only available for hex, BIP39 and SLIP39 output.''"
| "message (ArgpWhat m) = m"
| "message (Exception e) = what e"
| "message NullDeref = []"

subsection \<open>Data model\<close>

text \<open>\<^verbatim>\<open>Params::raw\<close>: the option strings as \<^verbatim>\<open>parse_opt\<close> stored them; an option that was
  not given is the empty string (or the empty vector, or \<open>False\<close>).\<close>

record raw_options =
  r_count :: string
  r_random_deterministic :: string
  r_input_format :: string
  r_output_format :: string
  r_ints_low :: string
  r_ints_high :: string
  r_slip39_groups_threshold :: string
  r_slip39_groups :: "string list"
  r_is_ur :: bool
  r_max_part_length :: string
  r_args :: "string list"

text \<open>\<^verbatim>\<open>group_descriptor\<close> of the sharing library: two small unsigned counts and a
  password array, which this file only ever sets to \<^verbatim>\<open>NULL\<close>.\<close>

record group_descriptor =
  g_threshold :: nat
  g_count :: nat
  g_passwords :: "string list option"

text \<open>\<^verbatim>\<open>Format::Key\<close>, the value of \<^verbatim>\<open>Format::key_for_string\<close>.\<close>

datatype key =
    Key_unknown | Key_random | Key_hex | Key_bits | Key_cards | Key_dice | Key_base6
  | Key_base10 | Key_ints | Key_bip39 | Key_slip39 | Key_bc32

text \<open>The subclasses of \<^verbatim>\<open>Format\<close>. \<open>FormatInts\<close> carries \<open>low\<close> and \<open>high\<close>,
  \<open>FormatSLIP39\<close> its \<open>groups_threshold\<close> and \<open>groups\<close>.\<close>

datatype format =
    FormatRandom | FormatHex | FormatBits | FormatCards | FormatDice | FormatBase6
  | FormatBase10 | FormatInts int int | FormatBIP39
  | FormatSLIP39 int "group_descriptor list" | FormatBC32

datatype rng_t = crypto_random | deterministic_random string

text \<open>
  What the file takes from its collaborators (the format classes, the sharing library,
  the UR decoder), none of which is part of this unit: they are parameters of the model.
\<close>

record env =
  key_for_string :: "string \<Rightarrow> key"
  format_name :: "format \<Rightarrow> string"
  new_FormatInts :: "int \<times> int"
  new_FormatSLIP39 :: "int \<times> group_descriptor list"
  BIP39_is_seed_length_valid :: "int \<Rightarrow> bool"
  SLIP39_is_seed_length_valid :: "int \<Rightarrow> bool"
  MAX_GROUPS :: nat
  new_UR :: "string list \<Rightarrow> exn + string"

text \<open>The object under construction, with the unread lines of standard input beside it.
  \<open>ur\<close> keeps the type tag of the decoded resource.\<close>

record Params =
  raw :: raw_options
  count :: int
  rng :: rng_t
  input_format :: "format option"
  output_format :: "format option"
  is_ur_in :: bool
  is_ur_out :: bool
  max_part_length :: int
  input :: "string list"
  ur :: "string option"
  cin :: "string list"

text \<open>The type tests of \<^verbatim>\<open>formats-all.hpp\<close> are dynamic casts: false on a null pointer.\<close>

fun is_random :: "format option \<Rightarrow> bool" where
  "is_random (Some FormatRandom) = True"
| "is_random _ = False"

fun is_hex :: "format option \<Rightarrow> bool" where
  "is_hex (Some FormatHex) = True"
| "is_hex _ = False"

fun is_bc32 :: "format option \<Rightarrow> bool" where
  "is_bc32 (Some FormatBC32) = True"
| "is_bc32 _ = False"

fun is_bip39 :: "format option \<Rightarrow> bool" where
  "is_bip39 (Some FormatBIP39) = True"
| "is_bip39 _ = False"

fun is_slip39 :: "format option \<Rightarrow> bool" where
  "is_slip39 (Some (FormatSLIP39 t gs)) = True"
| "is_slip39 _ = False"

definition mk_FormatInts :: "env \<Rightarrow> format" where
  "mk_FormatInts E = FormatInts (fst (new_FormatInts E)) (snd (new_FormatInts E))"

definition mk_FormatSLIP39 :: "env \<Rightarrow> format" where
  "mk_FormatSLIP39 E = FormatSLIP39 (fst (new_FormatSLIP39 E)) (snd (new_FormatSLIP39 E))"

subsection \<open>The validation steps\<close>

definition validate_count :: "Params \<Rightarrow> error + Params" where
  "validate_count p =
     (case (if r_count (raw p) \<noteq> [] then stoi (r_count (raw p)) else Inr 16) of
        Inl e \<Rightarrow> Inl (Exception e)
      | Inr c \<Rightarrow>
          if c < 1 \<or> c > 64 then Inl CountRange else Inr (p\<lparr>count := c\<rparr>))"

definition validate_deterministic :: "Params \<Rightarrow> error + Params" where
  "validate_deterministic p =
     (if r_random_deterministic (raw p) \<noteq> []
      then Inr (p\<lparr>rng := deterministic_random (r_random_deterministic (raw p))\<rparr>)
      else Inr (p\<lparr>rng := crypto_random\<rparr>))"

fun input_format_for_key :: "env \<Rightarrow> key \<Rightarrow> format option" where
  "input_format_for_key E Key_random = Some FormatRandom"
| "input_format_for_key E Key_hex = Some FormatHex"
| "input_format_for_key E Key_bits = Some FormatBits"
| "input_format_for_key E Key_cards = Some FormatCards"
| "input_format_for_key E Key_dice = Some FormatDice"
| "input_format_for_key E Key_base6 = Some FormatBase6"
| "input_format_for_key E Key_base10 = Some FormatBase10"
| "input_format_for_key E Key_ints = Some (mk_FormatInts E)"
| "input_format_for_key E Key_bip39 = Some FormatBIP39"
| "input_format_for_key E Key_slip39 = Some (mk_FormatSLIP39 E)"
| "input_format_for_key E Key_bc32 = Some FormatBC32"
| "input_format_for_key E Key_unknown = None"

definition validate_input_format :: "env \<Rightarrow> Params \<Rightarrow> error + Params" where
  "validate_input_format E p =
     (if r_input_format (raw p) = [] then Inr (p\<lparr>input_format := Some FormatRandom\<rparr>)
      else if r_input_format (raw p) = ''ur'' then Inr (p\<lparr>is_ur_in := True\<rparr>)
      else
        (case input_format_for_key E (key_for_string E (r_input_format (raw p))) of
           None \<Rightarrow> Inl (UnknownInputFormat (r_input_format (raw p)))
         | Some f \<Rightarrow> Inr (p\<lparr>input_format := Some f\<rparr>)))"

text \<open>The switch of \<^verbatim>\<open>validate_output_format\<close> has no case for the key \<open>random\<close>.\<close>

fun output_format_for_key :: "env \<Rightarrow> key \<Rightarrow> format option" where
  "output_format_for_key E Key_hex = Some FormatHex"
| "output_format_for_key E Key_bits = Some FormatBits"
| "output_format_for_key E Key_cards = Some FormatCards"
| "output_format_for_key E Key_dice = Some FormatDice"
| "output_format_for_key E Key_base6 = Some FormatBase6"
| "output_format_for_key E Key_base10 = Some FormatBase10"
| "output_format_for_key E Key_ints = Some (mk_FormatInts E)"
| "output_format_for_key E Key_bip39 = Some FormatBIP39"
| "output_format_for_key E Key_slip39 = Some (mk_FormatSLIP39 E)"
| "output_format_for_key E Key_bc32 = Some FormatBC32"
| "output_format_for_key E Key_random = None"
| "output_format_for_key E Key_unknown = None"

definition validate_output_format :: "env \<Rightarrow> Params \<Rightarrow> error + Params" where
  "validate_output_format E p =
     (if r_output_format (raw p) = [] then Inr (p\<lparr>output_format := Some FormatHex\<rparr>)
      else
        (case output_format_for_key E (key_for_string E (r_output_format (raw p))) of
           None \<Rightarrow> Inl (UnknownOutputFormat (r_output_format (raw p)))
         | Some f \<Rightarrow> Inr (p\<lparr>output_format := Some f\<rparr>)))"

definition validate_output_for_input :: "env \<Rightarrow> Params \<Rightarrow> error + Params" where
  "validate_output_for_input E p =
     (if is_hex (output_format p) then Inr p
      else if is_bc32 (output_format p) then Inr p
      else if is_random (input_format p) then Inr p
      else if is_hex (input_format p) then Inr p
      else if is_bc32 (input_format p) then Inr p
      else if is_ur_in p \<and> is_bip39 (input_format p) \<and> is_bip39 (output_format p) then Inr p
      else if is_ur_in p \<and> is_slip39 (input_format p) \<and> is_slip39 (output_format p)
        then Inr p
      else
        (case (input_format p, output_format p) of
           (Some i, Some out) \<Rightarrow> Inl (IncompatibleFormats (format_name E i) (format_name E out))
         | _ \<Rightarrow> Inl NullDeref))"

definition validate_ints_specific :: "Params \<Rightarrow> error + Params" where
  "validate_ints_specific p =
     (case output_format p of
        Some (FormatInts f_low f_high) \<Rightarrow>
          (case (if r_ints_low (raw p) \<noteq> [] then stoi (r_ints_low (raw p)) else Inr f_low) of
             Inl e \<Rightarrow> Inl (Exception e)
           | Inr low \<Rightarrow>
               (case (if r_ints_high (raw p) \<noteq> [] then stoi (r_ints_high (raw p))
                      else Inr f_high) of
                  Inl e \<Rightarrow> Inl (Exception e)
                | Inr high \<Rightarrow>
                    if \<not> (0 \<le> low \<and> low < high \<and> high \<le> 255) then Inl IntsRange
                    else Inr (p\<lparr>output_format := Some (FormatInts low high)\<rparr>)))
      | _ \<Rightarrow>
          if r_ints_low (raw p) \<noteq> [] then Inl LowOnlyInts
          else if r_ints_high (raw p) \<noteq> [] then Inl HighOnlyInts
          else Inr p)"

definition validate_bip39_specific :: "env \<Rightarrow> Params \<Rightarrow> error + Params" where
  "validate_bip39_specific E p =
     (if \<not> is_bip39 (output_format p) then Inr p
      else if \<not> BIP39_is_seed_length_valid E (count p) then Inl Bip39Count
      else Inr p)"

definition parse_group_spec :: "string \<Rightarrow> error + group_descriptor" where
  "parse_group_spec s =
     (case sscanf_zd_of_zd s of
        TwoItems threshold cnt \<Rightarrow>
          if \<not> (0 < threshold \<and> threshold \<le> cnt \<and> cnt \<le> 16)
            then Inl (InvalidGroupBounds s)
          else if cnt > 1 \<and> threshold = 1 then Inl InvalidGroupOneOfM
          else Inr \<lparr>g_threshold = unat threshold, g_count = unat cnt, g_passwords = None\<rparr>
      | _ \<Rightarrow> Inl (CouldNotParseGroup s))"

text \<open>The loop over \<^verbatim>\<open>raw.slip39_groups\<close>, pushing each parsed group.\<close>

fun parse_groups :: "string list \<Rightarrow> group_descriptor list \<Rightarrow> error + group_descriptor list"
  where
  "parse_groups [] groups = Inr groups"
| "parse_groups (g # gs) groups =
     (case parse_group_spec g of
        Inl e \<Rightarrow> Inl e
      | Inr grp \<Rightarrow> parse_groups gs (groups @ [grp]))"

definition validate_slip39_specific :: "env \<Rightarrow> Params \<Rightarrow> error + Params" where
  "validate_slip39_specific E p =
     (let raw_groups_count = length (r_slip39_groups (raw p)) in
      case output_format p of
        Some (FormatSLIP39 t0 gs0) \<Rightarrow>
          if \<not> SLIP39_is_seed_length_valid E (count p) then Inl Slip39Count
          else
            (case (if raw_groups_count > MAX_GROUPS E then Inl (TooManyGroups (MAX_GROUPS E))
                   else if raw_groups_count = 0
                     then Inr [\<lparr>g_threshold = 1, g_count = 1, g_passwords = None\<rparr>]
                   else parse_groups (r_slip39_groups (raw p)) []) of
               Inl e \<Rightarrow> Inl e
             | Inr groups \<Rightarrow>
                 (case (if r_slip39_groups_threshold (raw p) = [] then Inr 1
                        else stoi (r_slip39_groups_threshold (raw p))) of
                    Inl e \<Rightarrow> Inl (Exception e)
                  | Inr groups_threshold \<Rightarrow>
                      if \<not> (0 < groups_threshold \<and> groups_threshold \<le> int (length groups))
                        then Inl GroupThresholdRange
                      else Inr (p\<lparr>output_format :=
                                     Some (FormatSLIP39 groups_threshold groups)\<rparr>)))
      | _ \<Rightarrow>
          if raw_groups_count > 0 then Inl GroupOnlySlip39
          else if r_slip39_groups_threshold (raw p) \<noteq> [] then Inl GroupThresholdOnlySlip39
          else Inr p)"

text \<open>\<^verbatim>\<open>read_args_from_stdin\<close>: each line read is pushed on \<^verbatim>\<open>raw.args\<close>, until the
  stream ends.\<close>

fun getline_loop :: "string list \<Rightarrow> string list \<Rightarrow> string list \<times> string list" where
  "getline_loop [] args = ([], args)"
| "getline_loop (line # rest) args = getline_loop rest (args @ [line])"

definition read_args_from_stdin :: "Params \<Rightarrow> Params" where
  "read_args_from_stdin p =
     (let (rest, args) = getline_loop (cin p) (r_args (raw p))
      in p\<lparr>raw := (raw p)\<lparr>r_args := args\<rparr>, cin := rest\<rparr>)"

definition validate_input :: "env \<Rightarrow> Params \<Rightarrow> error + Params" where
  "validate_input E p =
     (if is_random (input_format p) then
        (if r_args (raw p) \<noteq> [] then Inl NoArgsForRandom else Inr p)
      else
        (let p1 = (if r_args (raw p) = [] then read_args_from_stdin p else p);
             p2 = p1\<lparr>input := r_args (raw p1)\<rparr>
         in if input p2 = [] then Inl NoInput
            else if is_ur_in p2 then
              (case new_UR E (input p2) of
                 Inl e \<Rightarrow> Inl (Exception e)
               | Inr ty \<Rightarrow>
                   (let p3 = p2\<lparr>ur := Some ty\<rparr> in
                    if ty = ''crypto-seed'' then Inr (p3\<lparr>input_format := Some FormatHex\<rparr>)
                    else if ty = ''crypto-bip39''
                      then Inr (p3\<lparr>input_format := Some FormatBIP39\<rparr>)
                    else if ty = ''crypto-slip39''
                      then Inr (p3\<lparr>input_format := Some (mk_FormatSLIP39 E)\<rparr>)
                    else Inl UnknownURType))
            else Inr p2))"

definition validate_count_for_input_format :: "Params \<Rightarrow> error + Params" where
  "validate_count_for_input_format p =
     (if is_hex (input_format p) then
        (if r_count (raw p) \<noteq> [] then Inl CountNotForHex else Inr p)
      else if is_bc32 (input_format p) then
        (if r_count (raw p) \<noteq> [] then Inl CountNotForBC32 else Inr p)
      else Inr p)"

definition validate_ur :: "Params \<Rightarrow> error + Params" where
  "validate_ur p =
     (if r_is_ur (raw p) then
        (if is_ur_in p then Inl UrWithUrIn
         else
           (case (if r_max_part_length (raw p) = [] then Inr 2500
                  else stoi (r_max_part_length (raw p))) of
              Inl e \<Rightarrow> Inl (Exception e)
            | Inr n \<Rightarrow>
                (let p1 = p\<lparr>is_ur_out := True, max_part_length := n\<rparr> in
                 if is_hex (output_format p1) then Inr p1
                 else if is_bip39 (output_format p1) then Inr p1
                 else if is_slip39 (output_format p1) then Inr p1
                 else Inl UrOnlyHexBip39Slip39)))
      else Inr p)"

subsection \<open>The pipeline\<close>

definition bind_step :: "error + Params \<Rightarrow> (Params \<Rightarrow> error + Params) \<Rightarrow> error + Params"
  where
  "bind_step r f = (case r of Inl e \<Rightarrow> Inl e | Inr p \<Rightarrow> f p)"

definition validate :: "env \<Rightarrow> Params \<Rightarrow> error + Params" where
  "validate E p =
     bind_step (bind_step (bind_step (bind_step (bind_step (bind_step (bind_step
       (bind_step (bind_step (bind_step
         (validate_count p)
         validate_deterministic)
         (validate_input_format E))
         (validate_input E))
         validate_count_for_input_format)
         (validate_output_format E))
         (validate_output_for_input E))
         validate_ints_specific)
         (validate_bip39_specific E))
         (validate_slip39_specific E))
         validate_ur"

text \<open>A fresh \<^verbatim>\<open>Params\<close> holding the collected options: no format chosen yet, no flag set.
  The class declaration is not part of this unit; null format pointers and cleared flags are
  what the destructor and the reads of \<^verbatim>\<open>is_ur_in\<close> before any write presuppose. The other
  fields are written before they are read.\<close>

definition new_Params :: "raw_options \<Rightarrow> string list \<Rightarrow> Params" where
  "new_Params r lines =
     \<lparr>raw = r, count = 0, rng = crypto_random, input_format = None, output_format = None,
      is_ur_in = False, is_ur_out = False, max_part_length = 0, input = [], ur = None,
      cin = lines\<rparr>"

text \<open>\<^verbatim>\<open>parse_opt\<close> at \<^verbatim>\<open>ARGP_KEY_END\<close>: run the pipeline; an exception that reaches the
  handler is reported through \<^verbatim>\<open>argp_error\<close> with its \<^verbatim>\<open>what()\<close>.\<close>

definition parse_opt_END :: "env \<Rightarrow> Params \<Rightarrow> error + Params" where
  "parse_opt_END E p =
     (case validate E p of
        Inl (Exception e) \<Rightarrow> Inl (ArgpWhat (what e))
      | Inl err \<Rightarrow> Inl err
      | Inr p' \<Rightarrow> Inr p')"

subsection \<open>A sample environment for concrete runs\<close>

text \<open>
  The concrete runs below need some choice of the collaborators. The names are those of
  the option table of the file (\<^verbatim>\<open>random|hex|bc32|bits|cards|dice|base6|base10|ints|bip39|slip39\<close>),
  the seed-length tests are the ones the two messages describe (even, 12 to 32 and 16 to
  32), the integer defaults are those of the help text, and a resource string
  \<^verbatim>\<open>ur:<type>/...\<close> decodes to its type. No general theorem depends on this choice.
\<close>

definition sample_key_for_string :: "string \<Rightarrow> key" where
  "sample_key_for_string s =
     (if s = ''random'' then Key_random
      else if s = ''hex'' then Key_hex
      else if s = ''bc32'' then Key_bc32
      else if s = ''bits'' then Key_bits
      else if s = ''cards'' then Key_cards
      else if s = ''dice'' then Key_dice
      else if s = ''base6'' then Key_base6
      else if s = ''base10'' then Key_base10
      else if s = ''ints'' then Key_ints
      else if s = ''bip39'' then Key_bip39
      else if s = ''slip39'' then Key_slip39
      else Key_unknown)"

fun sample_format_name :: "format \<Rightarrow> string" where
  "sample_format_name FormatRandom = ''random''"
| "sample_format_name FormatHex = ''hex''"
| "sample_format_name FormatBits = ''bits''"
| "sample_format_name FormatCards = ''cards''"
| "sample_format_name FormatDice = ''dice''"
| "sample_format_name FormatBase6 = ''base6''"
| "sample_format_name FormatBase10 = ''base10''"
| "sample_format_name (FormatInts l h) = ''ints''"
| "sample_format_name FormatBIP39 = ''bip39''"
| "sample_format_name (FormatSLIP39 t gs) = ''slip39''"
| "sample_format_name FormatBC32 = ''bc32''"

definition sample_new_UR :: "string list \<Rightarrow> exn + string" where
  "sample_new_UR parts =
     (case parts of
        [] \<Rightarrow> Inl (runtime_error ''Invalid UR.'')
      | s # rest \<Rightarrow>
          (case match_literal ''ur:'' s of
             None \<Rightarrow> Inl (runtime_error ''Invalid UR.'')
           | Some r \<Rightarrow> Inr (takeWhile (\<lambda>c. c \<noteq> CHR ''/'') r)))"

definition sample_env :: env where
  "sample_env =
     \<lparr>key_for_string = sample_key_for_string,
      format_name = sample_format_name,
      new_FormatInts = (1, 9),
      new_FormatSLIP39 = (1, []),
      BIP39_is_seed_length_valid = (\<lambda>c. 12 \<le> c \<and> c \<le> 32 \<and> c mod 2 = 0),
      SLIP39_is_seed_length_valid = (\<lambda>c. 16 \<le> c \<and> c \<le> 32 \<and> c mod 2 = 0),
      MAX_GROUPS = 16,
      new_UR = sample_new_UR\<rparr>"

definition no_options :: raw_options where
  "no_options =
     \<lparr>r_count = [], r_random_deterministic = [], r_input_format = [], r_output_format = [],
      r_ints_low = [], r_ints_high = [], r_slip39_groups_threshold = [],
      r_slip39_groups = [], r_is_ur = False, r_max_part_length = [], r_args = []\<rparr>"

subsection \<open>The rules as the specification words them\<close>

text \<open>The kind of a format, in the vocabulary of \<^verbatim>\<open>Format::Key\<close>.\<close>

fun key_of :: "format \<Rightarrow> key" where
  "key_of FormatRandom = Key_random"
| "key_of FormatHex = Key_hex"
| "key_of FormatBits = Key_bits"
| "key_of FormatCards = Key_cards"
| "key_of FormatDice = Key_dice"
| "key_of FormatBase6 = Key_base6"
| "key_of FormatBase10 = Key_base10"
| "key_of (FormatInts l h) = Key_ints"
| "key_of FormatBIP39 = Key_bip39"
| "key_of (FormatSLIP39 t gs) = Key_slip39"
| "key_of FormatBC32 = Key_bc32"

text \<open>The seven accepting rules of the compatibility matrix, in the order of the
  specification, over (input arrived as a resource, input kind, output kind); the eighth
  rule rejects when none of them matches.\<close>

definition matrix_rules :: "(bool \<Rightarrow> key \<Rightarrow> key \<Rightarrow> bool) list" where
  "matrix_rules =
     [\<lambda>u i out. out = Key_hex,
      \<lambda>u i out. out = Key_bc32,
      \<lambda>u i out. i = Key_random,
      \<lambda>u i out. i = Key_hex,
      \<lambda>u i out. i = Key_bc32,
      \<lambda>u i out. u \<and> i = Key_bip39 \<and> out = Key_bip39,
      \<lambda>u i out. u \<and> i = Key_slip39 \<and> out = Key_slip39]"

definition matrix_accepts :: "bool \<Rightarrow> key \<Rightarrow> key \<Rightarrow> bool" where
  "matrix_accepts u i out = list_ex (\<lambda>rule. rule u i out) matrix_rules"

text \<open>The order of the steps as the specification lists it, and a run that stops at the
  first step that fails.\<close>

definition spec_order :: "env \<Rightarrow> (Params \<Rightarrow> error + Params) list" where
  "spec_order E =
     [validate_count, validate_deterministic, validate_input_format E, validate_input E,
      validate_count_for_input_format, validate_output_format E,
      validate_output_for_input E, validate_ints_specific, validate_bip39_specific E,
      validate_slip39_specific E, validate_ur]"

fun run_steps :: "(Params \<Rightarrow> error + Params) list \<Rightarrow> Params \<Rightarrow> error + Params" where
  "run_steps [] p = Inr p"
| "run_steps (f # fs) p = (case f p of Inl e \<Rightarrow> Inl e | Inr p' \<Rightarrow> run_steps fs p')"

text \<open>The fixed mapping from the type tag of a decoded resource to the input format.\<close>

definition tag_format :: "env \<Rightarrow> string \<Rightarrow> format option" where
  "tag_format E ty =
     (if ty = ''crypto-seed'' then Some FormatHex
      else if ty = ''crypto-bip39'' then Some FormatBIP39
      else if ty = ''crypto-slip39'' then Some (mk_FormatSLIP39 E)
      else None)"

text \<open>The first four steps of \<^verbatim>\<open>validate\<close>, after which the input format is resolved.\<close>

definition resolve_input :: "env \<Rightarrow> Params \<Rightarrow> error + Params" where
  "resolve_input E p =
     bind_step (bind_step (bind_step
       (validate_count p)
       validate_deterministic)
       (validate_input_format E))
       (validate_input E)"

text \<open>The pattern \<^verbatim>\<open>%zd-of-%zd\<close> read over the integers, without the width of the
  machine; an auxiliary reading, shown below to agree with the shape said of the string.\<close>

definition match_T_of_N :: "string \<Rightarrow> (int \<times> int) option" where
  "match_T_of_N s =
     (case scan_int s of
        None \<Rightarrow> None
      | Some (T, r) \<Rightarrow>
          (case match_literal ''-of-'' r of
             None \<Rightarrow> None
           | Some r' \<Rightarrow>
               (case scan_int r' of
                  None \<Rightarrow> None
                | Some (N, r'') \<Rightarrow> Some (T, N))))"

text \<open>Whether a message contains a word.\<close>

fun starts_with :: "string \<Rightarrow> string \<Rightarrow> bool" where
  "starts_with [] s = True"
| "starts_with (c # cs) [] = False"
| "starts_with (c # cs) (d # ds) = (c = d \<and> starts_with cs ds)"

fun mentions :: "string \<Rightarrow> string \<Rightarrow> bool" where
  "mentions w [] = (w = [])"
| "mentions w (c # cs) = (starts_with w (c # cs) \<or> mentions w cs)"

text \<open>
  The shape of a group specifier, said of the string itself. A number text is what
  \<^verbatim>\<open>%zd\<close> consumes: white space, then an optional sign, then decimal digits. A string has
  the shape of the pattern when it is a number text, the literal \<^verbatim>\<open>-of-\<close>, a number text,
  and a rest that does not go on with a digit. The exact shape T-of-N is two runs of
  digits around the literal and nothing else.
\<close>

definition blank_chars :: string where
  "blank_chars = [CHR '' '', CHR 0x09, CHR 0x0A, CHR 0x0B, CHR 0x0C, CHR 0x0D]"

definition digit_chars :: string where
  "digit_chars = ''0123456789''"

definition digit_value :: "char \<Rightarrow> int" where
  "digit_value c = int (length (takeWhile (\<lambda>d. d \<noteq> c) digit_chars))"

fun units_first :: "string \<Rightarrow> int" where
  "units_first [] = 0"
| "units_first (c # cs) = digit_value c + 10 * units_first cs"

definition decimal :: "string \<Rightarrow> int" where
  "decimal ds = units_first (rev ds)"

definition number_text :: "string \<Rightarrow> int \<Rightarrow> bool" where
  "number_text t v \<longleftrightarrow>
     (\<exists>ws sg ds. t = ws @ sg @ ds
        \<and> set ws \<subseteq> set blank_chars
        \<and> (sg = [] \<or> sg = ''-'' \<or> sg = ''+'')
        \<and> ds \<noteq> [] \<and> set ds \<subseteq> set digit_chars
        \<and> v = (if sg = ''-'' then - decimal ds else decimal ds))"

definition scanf_shape :: "string \<Rightarrow> int \<Rightarrow> int \<Rightarrow> bool" where
  "scanf_shape s T N \<longleftrightarrow>
     (\<exists>t1 t2 rest. s = t1 @ ''-of-'' @ t2 @ rest
        \<and> number_text t1 T \<and> number_text t2 N
        \<and> (rest = [] \<or> hd rest \<notin> set digit_chars))"

definition exact_T_of_N :: "string \<Rightarrow> bool" where
  "exact_T_of_N s \<longleftrightarrow>
     (\<exists>ds1 ds2. s = ds1 @ ''-of-'' @ ds2
        \<and> ds1 \<noteq> [] \<and> set ds1 \<subseteq> set digit_chars
        \<and> ds2 \<noteq> [] \<and> set ds2 \<subseteq> set digit_chars)"

subsection \<open>Inputs of the concrete runs\<close>

text \<open>BIP39 words typed as arguments, BIP39 output, both formats already resolved.\<close>

definition plain_bip39 :: Params where
  "plain_bip39 =
     (new_Params no_options [])\<lparr>input_format := Some FormatBIP39,
        output_format := Some FormatBIP39, input := [''abandon'']\<rparr>"

text \<open>An invocation that breaks the rules of several steps at once.\<close>

definition many_faults :: Params where
  "many_faults =
     new_Params (no_options\<lparr>r_count := ''100'', r_input_format := ''foo'',
       r_output_format := ''bar'', r_ints_low := ''7''\<rparr>) []"

text \<open>Invocations with nothing but a count, with an input format and its arguments, with
  integer-list output, with UR output, with SLIP39 output.\<close>

definition count_abc :: Params where
  "count_abc = new_Params (no_options\<lparr>r_count := ''abc''\<rparr>) []"

definition count_of :: "string \<Rightarrow> Params" where
  "count_of c = new_Params (no_options\<lparr>r_count := c\<rparr>) []"

definition with_input :: "string \<Rightarrow> string list \<Rightarrow> string list \<Rightarrow> Params" where
  "with_input fmt args lines =
     new_Params (no_options\<lparr>r_input_format := fmt, r_args := args\<rparr>) lines"

definition ints_out :: "string \<Rightarrow> string \<Rightarrow> Params" where
  "ints_out lo hi =
     (new_Params (no_options\<lparr>r_output_format := ''ints'', r_ints_low := lo,
        r_ints_high := hi\<rparr>) [])\<lparr>output_format := Some (FormatInts 1 9)\<rparr>"

definition ur_out :: "format \<Rightarrow> string \<Rightarrow> Params" where
  "ur_out f len =
     (new_Params (no_options\<lparr>r_is_ur := True, r_max_part_length := len\<rparr>) [])
       \<lparr>output_format := Some f\<rparr>"




definition slip39_count_15 :: Params where
  "slip39_count_15 =
     new_Params (no_options\<lparr>r_output_format := ''slip39'', r_count := ''15''\<rparr>) []"

definition count_and_input :: "string \<Rightarrow> string \<Rightarrow> string \<Rightarrow> Params" where
  "count_and_input c fmt arg =
     new_Params (no_options\<lparr>r_count := c, r_input_format := fmt, r_args := [arg]\<rparr>) []"

text \<open>Runs in which \<^verbatim>\<open>std::stoi\<close> throws on a bound of the integer list and on the part
  length.\<close>

definition ints_high_overflow :: Params where
  "ints_high_overflow =
     new_Params (no_options\<lparr>r_output_format := ''ints'',
       r_ints_high := ''99999999999''\<rparr>) []"

definition ur_abc_bits :: Params where
  "ur_abc_bits =
     new_Params (no_options\<lparr>r_output_format := ''bits'', r_is_ur := True,
       r_max_part_length := ''abc''\<rparr>) []"

section \<open>Properties\<close>

lemmas eval_defs =
  new_Params_def no_options_def sample_env_def sample_key_for_string_def sample_new_UR_def
  validate_def bind_step_def parse_opt_END_def
  validate_count_def validate_deterministic_def validate_input_format_def validate_input_def
  validate_count_for_input_format_def validate_output_format_def
  validate_output_for_input_def validate_ints_specific_def validate_bip39_specific_def
  validate_slip39_specific_def validate_ur_def read_args_from_stdin_def
  mk_FormatInts_def mk_FormatSLIP39_def
  stoi_def scan_int_def scan_sign_def isspace_def isdigit_def digit_val_def dec_value_def
  parse_group_spec_def sscanf_zd_of_zd_def scan_zd_def ssize_clamp_def

subsection \<open>The compatibility matrix\<close>

lemma matrix_accepts_unfold:
  "matrix_accepts u i out =
     (out = Key_hex \<or> out = Key_bc32 \<or> i = Key_random \<or> i = Key_hex \<or> i = Key_bc32
      \<or> (u \<and> i = Key_bip39 \<and> out = Key_bip39) \<or> (u \<and> i = Key_slip39 \<and> out = Key_slip39))"
  by (simp add: matrix_accepts_def matrix_rules_def)

text \<open>
  Claim C1. With both formats resolved, \<^verbatim>\<open>validate_output_for_input\<close> accepts exactly when
  one of the seven accepting rules of the matrix holds (output hex, output BC32, input
  random, input hex, input BC32, resource input with BIP39 to BIP39, resource input with
  SLIP39 to SLIP39), and otherwise stops with the diagnostic that carries the names of
  both formats. In particular a word-list input that did not come as a resource string
  is rejected by the output of its own scheme.
\<close>

theorem validate_output_for_input_matrix:
  assumes "input_format p = Some i" and "output_format p = Some out"
  shows "validate_output_for_input E p =
           (if matrix_accepts (is_ur_in p) (key_of i) (key_of out) then Inr p
            else Inl (IncompatibleFormats (format_name E i) (format_name E out)))
         \<and> (\<not> is_ur_in p \<and> key_of i = key_of out
              \<and> (key_of i = Key_bip39 \<or> key_of i = Key_slip39)
            \<longrightarrow> validate_output_for_input E p =
                  Inl (IncompatibleFormats (format_name E i) (format_name E out)))"
  using assms
  by (cases i; cases out) (simp_all add: validate_output_for_input_def matrix_accepts_unfold)

theorem validate_output_for_input_matrix_witness:
  "input_format plain_bip39 = Some FormatBIP39
   \<and> output_format plain_bip39 = Some FormatBIP39
   \<and> \<not> is_ur_in plain_bip39
   \<and> validate_output_for_input sample_env plain_bip39 =
       Inl (IncompatibleFormats ''bip39'' ''bip39'')
   \<and> validate_output_for_input sample_env (plain_bip39\<lparr>is_ur_in := True\<rparr>) =
       Inr (plain_bip39\<lparr>is_ur_in := True\<rparr>)"
  using validate_output_for_input_matrix [of plain_bip39 FormatBIP39 FormatBIP39 sample_env]
    validate_output_for_input_matrix [of "plain_bip39\<lparr>is_ur_in := True\<rparr>" FormatBIP39
      FormatBIP39 sample_env]
  by (simp add: plain_bip39_def new_Params_def matrix_accepts_unfold sample_env_def)

subsection \<open>The order of the steps\<close>

lemma run_steps_fails_iff:
  "run_steps fs p = Inl e \<longleftrightarrow>
     (\<exists>k<length fs. \<exists>q. run_steps (take k fs) p = Inr q \<and> (fs ! k) q = Inl e)"
proof (induction fs arbitrary: p)
  case Nil
  then show ?case by simp
next
  case (Cons f fs)
  show ?case
  proof (cases "f p")
    case (Inl e')
    have "(\<exists>k<length (f # fs). \<exists>q. run_steps (take k (f # fs)) p = Inr q \<and> ((f # fs) ! k) q = Inl e)
          \<longleftrightarrow> e' = e"
    proof
      assume "\<exists>k<length (f # fs). \<exists>q. run_steps (take k (f # fs)) p = Inr q \<and> ((f # fs) ! k) q = Inl e"
      then obtain k q where k: "run_steps (take k (f # fs)) p = Inr q" "((f # fs) ! k) q = Inl e"
        by blast
      show "e' = e"
      proof (cases k)
        case 0
        with k Inl show ?thesis by simp
      next
        case (Suc j)
        with k Inl show ?thesis by simp
      qed
    next
      assume "e' = e"
      with Inl have "run_steps (take 0 (f # fs)) p = Inr p \<and> ((f # fs) ! 0) p = Inl e"
        by simp
      then show "\<exists>k<length (f # fs). \<exists>q. run_steps (take k (f # fs)) p = Inr q \<and> ((f # fs) ! k) q = Inl e"
        by blast
    qed
    with Inl show ?thesis by simp
  next
    case (Inr p')
    have "(\<exists>k<length (f # fs). \<exists>q. run_steps (take k (f # fs)) p = Inr q \<and> ((f # fs) ! k) q = Inl e)
          \<longleftrightarrow> (\<exists>k<length fs. \<exists>q. run_steps (take k fs) p' = Inr q \<and> (fs ! k) q = Inl e)"
      (is "?L \<longleftrightarrow> ?R")
    proof
      assume ?L
      then obtain k q where k: "k < length (f # fs)" "run_steps (take k (f # fs)) p = Inr q"
        "((f # fs) ! k) q = Inl e" by blast
      show ?R
      proof (cases k)
        case 0
        with k Inr show ?thesis by simp
      next
        case (Suc j)
        with k Inr have "j < length fs \<and> run_steps (take j fs) p' = Inr q \<and> (fs ! j) q = Inl e"
          by simp
        then show ?thesis by blast
      qed
    next
      assume ?R
      then obtain j q where j: "j < length fs" "run_steps (take j fs) p' = Inr q" "(fs ! j) q = Inl e"
        by blast
      with Inr have "Suc j < length (f # fs) \<and> run_steps (take (Suc j) (f # fs)) p = Inr q
          \<and> ((f # fs) ! Suc j) q = Inl e" by simp
      then show ?L by blast
    qed
    with Inr Cons.IH [of p'] show ?thesis by simp
  qed
qed

lemma validate_run_steps: "validate E p = run_steps (spec_order E) p"
  by (simp add: validate_def spec_order_def bind_step_def split: sum.splits)

text \<open>
  Claim C2. \<^verbatim>\<open>validate\<close> runs the eleven steps in the order count, random source, input
  format, input acquisition and resource decoding, count against input format, output
  format, compatibility, integer range, BIP39 seed length, SLIP39 groups, UR output; it
  fails with a diagnostic exactly when some step fails on the state that the steps before
  it produced without failing, and the diagnostic is that step's; a failure returns no
  configuration. \<^verbatim>\<open>parse_opt\<close> passes the outcome on, printing the text of an exception
  where a step threw one.
\<close>

theorem validate_fail_fast:
  "validate E p = run_steps (spec_order E) p
   \<and> length (spec_order E) = 11
   \<and> (\<forall>e. validate E p = Inl e \<longleftrightarrow>
        (\<exists>k<length (spec_order E). \<exists>q.
            run_steps (take k (spec_order E)) p = Inr q \<and> (spec_order E ! k) q = Inl e))
   \<and> (\<forall>q. parse_opt_END E p = Inr q \<longleftrightarrow> validate E p = Inr q)
   \<and> (\<forall>e. parse_opt_END E p = Inl e \<longleftrightarrow>
        (\<exists>e'. validate E p = Inl e'
           \<and> e = (case e' of Exception x \<Rightarrow> ArgpWhat (what x) | _ \<Rightarrow> e')))"
proof -
  have a: "validate E p = run_steps (spec_order E) p" by (rule validate_run_steps)
  have b: "length (spec_order E) = 11" by (simp add: spec_order_def)
  have c: "\<forall>e. validate E p = Inl e \<longleftrightarrow>
        (\<exists>k<length (spec_order E). \<exists>q.
            run_steps (take k (spec_order E)) p = Inr q \<and> (spec_order E ! k) q = Inl e)"
    by (simp add: a run_steps_fails_iff)
  have d: "\<forall>q. parse_opt_END E p = Inr q \<longleftrightarrow> validate E p = Inr q"
    by (auto simp: parse_opt_END_def split: sum.splits error.splits)
  have e: "\<forall>e. parse_opt_END E p = Inl e \<longleftrightarrow>
        (\<exists>e'. validate E p = Inl e'
           \<and> e = (case e' of Exception x \<Rightarrow> ArgpWhat (what x) | _ \<Rightarrow> e'))"
  proof (cases "validate E p")
    case (Inl e')
    then show ?thesis by (cases e') (auto simp: parse_opt_END_def)
  next
    case (Inr q)
    then show ?thesis by (simp add: parse_opt_END_def)
  qed
  from a b c d e show ?thesis by blast
qed

theorem validate_fail_fast_witness:
  "validate sample_env many_faults = Inl CountRange
   \<and> (\<exists>k<length (spec_order sample_env). \<exists>q.
         run_steps (take k (spec_order sample_env)) many_faults = Inr q
         \<and> (spec_order sample_env ! k) q = Inl CountRange)
   \<and> validate sample_env (many_faults\<lparr>raw := (raw many_faults)\<lparr>r_count := ''16''\<rparr>\<rparr>)
       = Inl (UnknownInputFormat ''foo'')
   \<and> validate sample_env (many_faults\<lparr>raw := (raw many_faults)\<lparr>r_count := ''16'',
         r_input_format := ''hex'', r_args := [''deadbeef'']\<rparr>\<rparr>)
       = Inl CountNotForHex
   \<and> validate sample_env (many_faults\<lparr>raw := (raw many_faults)\<lparr>r_count := [],
         r_input_format := ''hex'', r_args := [''deadbeef'']\<rparr>\<rparr>)
       = Inl (UnknownOutputFormat ''bar'')
   \<and> validate sample_env (many_faults\<lparr>raw := (raw many_faults)\<lparr>r_count := [],
         r_input_format := ''bip39'', r_output_format := ''bits'', r_args := [''zoo'']\<rparr>\<rparr>)
       = Inl (IncompatibleFormats ''bip39'' ''bits'')"
proof -
  have v: "validate sample_env many_faults = Inl CountRange"
    by (simp add: many_faults_def eval_defs)
  have w: "\<exists>k<length (spec_order sample_env). \<exists>q.
         run_steps (take k (spec_order sample_env)) many_faults = Inr q
         \<and> (spec_order sample_env ! k) q = Inl CountRange"
    using validate_fail_fast [of sample_env many_faults] v by blast
  have x1: "validate sample_env (many_faults\<lparr>raw := (raw many_faults)\<lparr>r_count := ''16''\<rparr>\<rparr>)
       = Inl (UnknownInputFormat ''foo'')"
    by (simp add: many_faults_def eval_defs)
  have x2: "validate sample_env (many_faults\<lparr>raw := (raw many_faults)\<lparr>r_count := ''16'',
         r_input_format := ''hex'', r_args := [''deadbeef'']\<rparr>\<rparr>)
       = Inl CountNotForHex"
    by (simp add: many_faults_def eval_defs)
  have x3: "validate sample_env (many_faults\<lparr>raw := (raw many_faults)\<lparr>r_count := [],
         r_input_format := ''hex'', r_args := [''deadbeef'']\<rparr>\<rparr>)
       = Inl (UnknownOutputFormat ''bar'')"
    by (simp add: many_faults_def eval_defs)
  have x4: "validate sample_env (many_faults\<lparr>raw := (raw many_faults)\<lparr>r_count := [],
         r_input_format := ''bip39'', r_output_format := ''bits'', r_args := [''zoo'']\<rparr>\<rparr>)
       = Inl (IncompatibleFormats ''bip39'' ''bits'')"
    by (simp add: many_faults_def eval_defs)
  from v w x1 x2 x3 x4 show ?thesis by blast
qed

subsection \<open>Group specifiers\<close>

lemma match_literal_iff: "match_literal lit s = Some r \<longleftrightarrow> s = lit @ r"
  by (induction lit s rule: match_literal.induct) auto

lemma clamp_small_val:
  assumes "0 \<le> v" and "v \<le> 16"
  shows "uint (word_of_int (ssize_clamp v) :: size_t) = v"
proof -
  from assms have c: "ssize_clamp v = v" by (simp add: ssize_clamp_def)
  have "uint (word_of_int v :: size_t) = v mod 2 ^ 64" by (simp add: uint_word_of_int)
  with assms have "uint (word_of_int v :: size_t) = v" by simp
  with c show ?thesis by simp
qed

lemma clamp_small:
  "uint (word_of_int (ssize_clamp v) :: size_t) \<le> 16 \<longleftrightarrow> 0 \<le> v \<and> v \<le> 16"
proof (cases "0 \<le> v \<and> v \<le> 16")
  case True
  then show ?thesis by (simp add: clamp_small_val)
next
  case False
  let ?c = "ssize_clamp v"
  have r: "- (2 ^ 63) \<le> ?c" "?c \<le> 2 ^ 63 - 1" by (simp_all add: ssize_clamp_def)
  have u: "uint (word_of_int ?c :: size_t) = ?c mod 2 ^ 64"
    by (simp add: uint_word_of_int)
  have "16 < ?c mod 2 ^ 64"
  proof (cases "0 \<le> v")
    case True
    with False have "16 < ?c" by (simp add: ssize_clamp_def)
    moreover from this r have "?c mod 2 ^ 64 = ?c" by simp
    ultimately show ?thesis by simp
  next
    case False
    then have n: "?c < 0" by (simp add: ssize_clamp_def)
    have "(?c + 2 ^ 64) mod 2 ^ 64 = ?c + 2 ^ 64"
      using r n by (intro mod_pos_pos_trivial) simp_all
    then have "?c mod 2 ^ 64 = ?c + 2 ^ 64" by simp
    with r show ?thesis by simp
  qed
  with u False show ?thesis by simp
qed

lemma isdigit_char_of: "(n::nat) < 10 \<Longrightarrow> isdigit (char_of (48 + n))"
  by (simp add: isdigit_def)

lemma digit_val_char_of: "(n::nat) < 10 \<Longrightarrow> digit_val (char_of (48 + n)) = int n"
  by (simp add: digit_val_def)

lemma show_nat_digits: "\<forall>c \<in> set (show_nat n). isdigit c"
proof (induction n rule: show_nat.induct)
  case (1 n)
  show ?case
  proof (cases "n < 10")
    case True
    then show ?thesis by (subst show_nat.simps) (simp add: isdigit_char_of)
  next
    case False
    have "n mod 10 < 10" by simp
    then have "isdigit (char_of (48 + n mod 10))" by (rule isdigit_char_of)
    with False 1 show ?thesis by (subst show_nat.simps) simp
  qed
qed

lemma show_nat_nonempty: "show_nat n \<noteq> []"
  by (subst show_nat.simps) simp

lemma dec_value_snoc: "dec_value (ds @ [c]) = 10 * dec_value ds + digit_val c"
  by (simp add: dec_value_def)

lemma dec_value_show_nat: "dec_value (show_nat n) = int n"
proof (induction n rule: show_nat.induct)
  case (1 n)
  show ?case
  proof (cases "n < 10")
    case True
    then show ?thesis
      by (subst show_nat.simps) (simp add: dec_value_def digit_val_char_of)
  next
    case False
    have d: "digit_val (char_of (48 + n mod 10)) = int (n mod 10)"
      by (rule digit_val_char_of) simp
    from False 1 have "dec_value (show_nat (n div 10)) = int (n div 10)" by simp
    with False d have "dec_value (show_nat n) = 10 * int (n div 10) + int (n mod 10)"
      by (subst show_nat.simps) (simp add: dec_value_snoc)
    then show ?thesis by (simp add: zmod_int zdiv_int)
  qed
qed

lemma isdigit_not_space: "isdigit c \<Longrightarrow> \<not> isspace c"
  by (auto simp: isdigit_def isspace_def)

lemma isdigit_not_sign: "isdigit c \<Longrightarrow> c \<noteq> CHR ''-'' \<and> c \<noteq> CHR ''+''"
  by (auto simp: isdigit_def)

lemma scan_int_show_nat:
  assumes "r = [] \<or> \<not> isdigit (hd r)"
  shows "scan_int (show_nat n @ r) = Some (int n, r)"
proof -
  obtain c cs where sn: "show_nat n = c # cs"
    using show_nat_nonempty [of n] by (cases "show_nat n") auto
  with show_nat_digits [of n] have c: "isdigit c" by simp
  have dw: "dropWhile isspace (show_nat n @ r) = show_nat n @ r"
    using sn isdigit_not_space [OF c] by simp
  have ss: "scan_sign (show_nat n @ r) = (False, show_nat n @ r)"
    using sn isdigit_not_sign [OF c] by (simp add: scan_sign_def)
  have r0: "takeWhile isdigit r = []" "dropWhile isdigit r = r"
    using assms by (cases r; simp)+
  have tw: "takeWhile isdigit (show_nat n @ r) = show_nat n"
    using show_nat_digits [of n] r0 by simp
  have dd: "dropWhile isdigit (show_nat n @ r) = r"
    using show_nat_digits [of n] r0 by simp
  show ?thesis
    by (simp add: scan_int_def dw ss tw dd show_nat_nonempty dec_value_show_nat)
qed

lemma match_T_of_N_show_nat:
  "match_T_of_N (show_nat T @ ''-of-'' @ show_nat N) = Some (int T, int N)"
proof -
  have a: "scan_int (show_nat T @ ''-of-'' @ show_nat N) = Some (int T, ''-of-'' @ show_nat N)"
    by (rule scan_int_show_nat) (simp add: isdigit_def)
  have b: "match_literal ''-of-'' (''-of-'' @ show_nat N) = Some (show_nat N)"
    by simp
  have c: "scan_int (show_nat N) = Some (int N, [])"
    using scan_int_show_nat [of "[]" N] by simp
  show ?thesis
    by (simp only: match_T_of_N_def a b c option.case prod.case)
qed

lemma parse_group_spec_eq:
  "parse_group_spec s =
     (case match_T_of_N s of
        None \<Rightarrow> Inl (CouldNotParseGroup s)
      | Some (T, N) \<Rightarrow>
          if 1 \<le> T \<and> T \<le> N \<and> N \<le> 16 \<and> (N > 1 \<longrightarrow> T \<noteq> 1)
            then Inr \<lparr>g_threshold = nat T, g_count = nat N, g_passwords = None\<rparr>
          else if 1 \<le> T \<and> T \<le> N \<and> N \<le> 16 then Inl InvalidGroupOneOfM
          else Inl (InvalidGroupBounds s))"
proof (cases "match_T_of_N s")
  case None
  then show ?thesis
    by (auto simp: parse_group_spec_def sscanf_zd_of_zd_def scan_zd_def match_T_of_N_def
        split: option.splits)
next
  case (Some TN)
  obtain T N where TN: "TN = (T, N)" by (cases TN)
  define t :: size_t where "t = word_of_int (ssize_clamp T)"
  define n :: size_t where "n = word_of_int (ssize_clamp N)"
  from Some TN have sc: "sscanf_zd_of_zd s = TwoItems t n"
    by (auto simp: sscanf_zd_of_zd_def scan_zd_def match_T_of_N_def t_def n_def
        split: option.splits)
  have n16: "n \<le> 16 \<longleftrightarrow> 0 \<le> N \<and> N \<le> 16"
    using clamp_small [of N] by (simp add: word_le_def n_def)
  have t16: "uint t \<le> 16 \<longleftrightarrow> 0 \<le> T \<and> T \<le> 16"
    using clamp_small [of T] by (simp add: t_def)
  have bounds: "(0 < t \<and> t \<le> n \<and> n \<le> 16) \<longleftrightarrow> (1 \<le> T \<and> T \<le> N \<and> N \<le> 16)"
  proof
    assume a: "0 < t \<and> t \<le> n \<and> n \<le> 16"
    then have N: "0 \<le> N" "N \<le> 16" using n16 by simp_all
    then have un: "uint n = N" by (simp add: n_def clamp_small_val)
    from a have "uint t \<le> uint n" by (simp add: word_le_def)
    with un N have "uint t \<le> 16" by simp
    with t16 have T: "0 \<le> T" "T \<le> 16" by simp_all
    then have ut: "uint t = T" by (simp add: t_def clamp_small_val)
    from a have "0 < uint t" by (simp add: word_less_def)
    with ut un a N show "1 \<le> T \<and> T \<le> N \<and> N \<le> 16" by (simp add: word_le_def)
  next
    assume b: "1 \<le> T \<and> T \<le> N \<and> N \<le> 16"
    then have ut: "uint t = T" and un: "uint n = N"
      by (simp_all add: t_def n_def clamp_small_val)
    with b show "0 < t \<and> t \<le> n \<and> n \<le> 16" by (simp add: word_le_def word_less_def)
  qed
  define A where "A \<longleftrightarrow> 0 < t \<and> t \<le> n \<and> n \<le> 16"
  define B where "B \<longleftrightarrow> n > 1 \<and> t = 1"
  have step: "parse_group_spec s =
      (if \<not> A then Inl (InvalidGroupBounds s)
       else if B then Inl InvalidGroupOneOfM
       else Inr \<lparr>g_threshold = unat t, g_count = unat n, g_passwords = None\<rparr>)"
    using sc by (simp add: parse_group_spec_def A_def B_def)
  let ?rhs = "if 1 \<le> T \<and> T \<le> N \<and> N \<le> 16 \<and> (N > 1 \<longrightarrow> T \<noteq> 1)
            then Inr \<lparr>g_threshold = nat T, g_count = nat N, g_passwords = None\<rparr>
          else if 1 \<le> T \<and> T \<le> N \<and> N \<le> 16 then Inl InvalidGroupOneOfM
          else Inl (InvalidGroupBounds s)"
  have "parse_group_spec s = ?rhs"
  proof (cases "1 \<le> T \<and> T \<le> N \<and> N \<le> 16")
    case False
    with bounds have nb: "\<not> A" by (simp add: A_def)
    have l: "parse_group_spec s = Inl (InvalidGroupBounds s)"
      by (simp add: step nb)
    from False have r: "?rhs = Inl (InvalidGroupBounds s)" by auto
    from l r show ?thesis by simp
  next
    case True
    then have ut: "uint t = T" and un: "uint n = N"
      by (simp_all add: t_def n_def clamp_small_val)
    have one: "(n > 1 \<and> t = 1) \<longleftrightarrow> (N > 1 \<and> T = 1)"
      using ut un by (auto simp: word_less_def word_uint_eq_iff)
    have vals: "unat t = nat T" "unat n = nat N"
      using ut un by (simp_all add: unat_eq_nat_uint)
    from True bounds have ok: A by (simp add: A_def)
    show ?thesis
    proof (cases "N > 1 \<and> T = 1")
      case c: True
      with one have o: B by (simp add: B_def)
      have l: "parse_group_spec s = Inl InvalidGroupOneOfM"
        by (simp add: step ok o)
      from True c have r: "?rhs = Inl InvalidGroupOneOfM" by auto
      from l r show ?thesis by simp
    next
      case c: False
      with one have o: "\<not> B" by (simp add: B_def)
      have l: "parse_group_spec s =
          Inr \<lparr>g_threshold = unat t, g_count = unat n, g_passwords = None\<rparr>"
        by (simp add: step ok o)
      from True c have r: "?rhs =
          Inr \<lparr>g_threshold = nat T, g_count = nat N, g_passwords = None\<rparr>" by auto
      from l r vals show ?thesis by simp
    qed
  qed
  with Some TN show ?thesis by simp
qed

lemma isspace_blank: "isspace c \<longleftrightarrow> c \<in> set blank_chars"
  by (auto simp: isspace_def blank_chars_def)

lemma digit_chars_isdigit: "c \<in> set digit_chars \<Longrightarrow> isdigit c"
  by (auto simp: digit_chars_def isdigit_def)

lemma isdigit_digit_chars:
  assumes "isdigit c"
  shows "c \<in> set digit_chars"
proof -
  define n :: nat where "n = of_char c"
  from assms have "48 \<le> n \<and> n \<le> 57" by (simp add: isdigit_def n_def)
  then have "n = 48 \<or> n = 49 \<or> n = 50 \<or> n = 51 \<or> n = 52 \<or> n = 53 \<or> n = 54 \<or> n = 55
      \<or> n = 56 \<or> n = 57" by arith
  then have "n = of_char CHR ''0'' \<or> n = of_char CHR ''1'' \<or> n = of_char CHR ''2''
      \<or> n = of_char CHR ''3'' \<or> n = of_char CHR ''4'' \<or> n = of_char CHR ''5''
      \<or> n = of_char CHR ''6'' \<or> n = of_char CHR ''7'' \<or> n = of_char CHR ''8''
      \<or> n = of_char CHR ''9''" by simp
  then have "c = CHR ''0'' \<or> c = CHR ''1'' \<or> c = CHR ''2'' \<or> c = CHR ''3'' \<or> c = CHR ''4''
      \<or> c = CHR ''5'' \<or> c = CHR ''6'' \<or> c = CHR ''7'' \<or> c = CHR ''8'' \<or> c = CHR ''9''"
    unfolding n_def by (simp only: of_char_eq_iff)
  then show ?thesis by (auto simp: digit_chars_def)
qed

lemma isdigit_iff: "isdigit c \<longleftrightarrow> c \<in> set digit_chars"
  using isdigit_digit_chars digit_chars_isdigit by blast

lemma digit_value_eq:
  assumes "c \<in> set digit_chars"
  shows "digit_value c = digit_val c"
proof -
  from assms consider "c = CHR ''0''" | "c = CHR ''1''" | "c = CHR ''2''" | "c = CHR ''3''"
    | "c = CHR ''4''" | "c = CHR ''5''" | "c = CHR ''6''" | "c = CHR ''7''" | "c = CHR ''8''"
    | "c = CHR ''9''"
    unfolding digit_chars_def by auto
  then show ?thesis
    by cases (simp_all add: digit_value_def digit_chars_def digit_val_def)
qed

lemma decimal_eq: "set ds \<subseteq> set digit_chars \<Longrightarrow> decimal ds = dec_value ds"
proof (induction ds rule: rev_induct)
  case Nil
  then show ?case by (simp add: decimal_def dec_value_def)
next
  case (snoc c ds)
  then have "decimal ds = dec_value ds" and "digit_value c = digit_val c"
    by (simp_all add: digit_value_eq)
  then show ?case by (simp add: decimal_def dec_value_snoc)
qed

lemma scan_sign_split:
  "\<exists>sg. s = sg @ snd (scan_sign s) \<and> (sg = [] \<or> sg = ''-'' \<or> sg = ''+'')
        \<and> fst (scan_sign s) = (sg = ''-'')"
  by (cases s) (auto simp: scan_sign_def)

lemma scan_int_number:
  assumes ws: "set ws \<subseteq> set blank_chars"
    and sg: "sg = [] \<or> sg = ''-'' \<or> sg = ''+''"
    and ds: "ds \<noteq> []" "set ds \<subseteq> set digit_chars"
    and r: "r = [] \<or> hd r \<notin> set digit_chars"
  shows "scan_int (ws @ sg @ ds @ r) =
           Some (if sg = ''-'' then - decimal ds else decimal ds, r)"
proof -
  from ds obtain d ds' where dd: "ds = d # ds'" by (cases ds) auto
  with ds have d: "isdigit d" by (simp add: isdigit_iff)
  have nsp: "\<not> isspace d" "\<not> isspace (CHR ''-'')" "\<not> isspace (CHR ''+'')"
    using isdigit_not_space [OF d] by (simp_all add: isspace_def)
  have "dropWhile isspace (ws @ sg @ ds @ r) = dropWhile isspace (sg @ ds @ r)"
    using ws by (intro dropWhile_append2) (auto simp: isspace_blank)
  also have "\<dots> = sg @ ds @ r" using sg dd nsp by auto
  finally have dw: "dropWhile isspace (ws @ sg @ ds @ r) = sg @ ds @ r" .
  have ss: "scan_sign (sg @ ds @ r) = (sg = ''-'', ds @ r)"
    using sg dd isdigit_not_sign [OF d] by (auto simp: scan_sign_def)
  have r0: "takeWhile isdigit r = []" "dropWhile isdigit r = r"
    using r by (cases r; simp add: isdigit_iff)+
  have al: "\<forall>c \<in> set ds. isdigit c" using ds by (auto simp: isdigit_iff)
  have tw: "takeWhile isdigit (ds @ r) = ds" using al r0 by simp
  have dr: "dropWhile isdigit (ds @ r) = r" using al r0 by simp
  show ?thesis
    by (simp add: scan_int_def dw ss tw dr ds decimal_eq)
qed

lemma scan_int_number_text:
  assumes "number_text t v" and r: "r = [] \<or> hd r \<notin> set digit_chars"
  shows "scan_int (t @ r) = Some (v, r)"
proof -
  from assms(1) obtain ws sg ds where
    t: "t = ws @ sg @ ds" and ws: "set ws \<subseteq> set blank_chars"
    and sg: "sg = [] \<or> sg = ''-'' \<or> sg = ''+''"
    and ds: "ds \<noteq> []" "set ds \<subseteq> set digit_chars"
    and v: "v = (if sg = ''-'' then - decimal ds else decimal ds)"
    unfolding number_text_def by blast
  have "t @ r = ws @ sg @ ds @ r" by (simp only: t append_assoc)
  with scan_int_number [OF ws sg ds r] v show ?thesis by (simp only:)
qed

lemma scan_int_Some_text:
  assumes "scan_int s = Some (v, r)"
  shows "\<exists>t. s = t @ r \<and> number_text t v \<and> (r = [] \<or> hd r \<notin> set digit_chars)"
proof -
  define ws where "ws = takeWhile isspace s"
  define s1 where "s1 = dropWhile isspace s"
  define s2 where "s2 = snd (scan_sign s1)"
  define ds where "ds = takeWhile isdigit s2"
  from scan_sign_split [of s1] obtain sg where
    sg: "s1 = sg @ s2" "sg = [] \<or> sg = ''-'' \<or> sg = ''+''" "fst (scan_sign s1) = (sg = ''-'')"
    unfolding s2_def by blast
  have sp: "scan_sign s1 = (sg = ''-'', s2)"
    using sg(3) by (simp add: s2_def prod_eq_iff)
  from assms have ne: "ds \<noteq> []"
    and v: "v = (if sg = ''-'' then - dec_value ds else dec_value ds)"
    and r: "r = dropWhile isdigit s2"
    by (auto simp: scan_int_def s1_def [symmetric] sp ds_def Let_def split: if_splits)
  have "s = ws @ s1" by (simp add: ws_def s1_def)
  moreover have "s2 = ds @ r" by (simp add: ds_def r)
  ultimately have s: "s = ws @ sg @ ds @ r" using sg(1) by simp
  have wsb: "set ws \<subseteq> set blank_chars"
    by (auto simp: ws_def isspace_blank [symmetric] dest: set_takeWhileD)
  have dsd: "set ds \<subseteq> set digit_chars"
    by (auto simp: ds_def isdigit_iff [symmetric] dest: set_takeWhileD)
  have rr: "r = [] \<or> hd r \<notin> set digit_chars"
    unfolding r using hd_dropWhile [of isdigit s2] by (auto simp: isdigit_iff)
  from v dsd have v': "v = (if sg = ''-'' then - decimal ds else decimal ds)"
    by (simp only: decimal_eq)
  have "number_text (ws @ sg @ ds) v"
    unfolding number_text_def using wsb sg(2) ne dsd v'
    by (intro exI [of _ ws] exI [of _ sg] exI [of _ ds]) blast
  with s rr show ?thesis by (intro exI [of _ "ws @ sg @ ds"]) simp
qed

lemma match_T_of_N_iff: "match_T_of_N s = Some (T, N) \<longleftrightarrow> scanf_shape s T N"
proof
  assume m: "match_T_of_N s = Some (T, N)"
  then obtain r r' r'' where
    a: "scan_int s = Some (T, r)" and b: "match_literal ''-of-'' r = Some r'"
    and c: "scan_int r' = Some (N, r'')"
    by (auto simp: match_T_of_N_def split: option.splits)
  from b have r: "r = ''-of-'' @ r'" by (simp only: match_literal_iff)
  from scan_int_Some_text [OF a] obtain t1 where t1: "s = t1 @ r" "number_text t1 T" by blast
  from scan_int_Some_text [OF c] obtain t2 where
    t2: "r' = t2 @ r''" "number_text t2 N" "r'' = [] \<or> hd r'' \<notin> set digit_chars" by blast
  from t1 t2 r show "scanf_shape s T N"
    unfolding scanf_shape_def by (intro exI [of _ t1] exI [of _ t2] exI [of _ r'']) simp
next
  assume "scanf_shape s T N"
  then obtain t1 t2 rest where
    s: "s = t1 @ ''-of-'' @ t2 @ rest" and n1: "number_text t1 T" and n2: "number_text t2 N"
    and rest: "rest = [] \<or> hd rest \<notin> set digit_chars"
    unfolding scanf_shape_def by blast
  have a: "scan_int s = Some (T, ''-of-'' @ t2 @ rest)"
    unfolding s by (rule scan_int_number_text [OF n1]) (simp add: digit_chars_def)
  have b: "match_literal ''-of-'' (''-of-'' @ t2 @ rest) = Some (t2 @ rest)"
    by (simp only: match_literal_iff)
  have c: "scan_int (t2 @ rest) = Some (N, rest)"
    by (rule scan_int_number_text [OF n2 rest])
  show "match_T_of_N s = Some (T, N)"
    by (simp only: match_T_of_N_def a b c option.case prod.case)
qed

lemma exact_is_scanf_shape:
  assumes "exact_T_of_N s"
  shows "\<exists>T N. scanf_shape s T N \<and> 0 \<le> T \<and> 0 \<le> N"
proof -
  from assms obtain ds1 ds2 where
    s: "s = ds1 @ ''-of-'' @ ds2" and d1: "ds1 \<noteq> []" "set ds1 \<subseteq> set digit_chars"
    and d2: "ds2 \<noteq> []" "set ds2 \<subseteq> set digit_chars"
    unfolding exact_T_of_N_def by blast
  have n1: "number_text ds1 (decimal ds1)"
    unfolding number_text_def using d1
    by (intro exI [of _ "[]"] exI [of _ ds1]) simp
  have n2: "number_text ds2 (decimal ds2)"
    unfolding number_text_def using d2
    by (intro exI [of _ "[]"] exI [of _ ds2]) simp
  have sh: "scanf_shape s (decimal ds1) (decimal ds2)"
    unfolding scanf_shape_def using s n1 n2
    by (intro exI [of _ ds1] exI [of _ ds2] exI [of _ "[]"]) simp
  have nn: "0 \<le> units_first xs" if "set xs \<subseteq> set digit_chars" for xs
    using that by (induction xs) (simp_all add: digit_value_def)
  have "0 \<le> decimal ds1" "0 \<le> decimal ds2"
    using d1 d2 by (simp_all add: decimal_def nn)
  with sh show ?thesis by blast
qed

lemma show_nat_exact: "exact_T_of_N (show_nat t @ ''-of-'' @ show_nat n)"
proof -
  have "set (show_nat k) \<subseteq> set digit_chars" for k
    using show_nat_digits [of k] by (auto simp: isdigit_iff)
  then show ?thesis
    unfolding exact_T_of_N_def
    by (intro exI [of _ "show_nat t"] exI [of _ "show_nat n"]) (simp add: show_nat_nonempty)
qed

text \<open>
  Claim C3, as amended. The shape that decides is that of the pattern \<^verbatim>\<open>%zd-of-%zd\<close>: each
  number may be preceded by white space and one sign, and whatever follows the second
  number is ignored. A string that does not have this shape fails with the diagnostic
  "Could not parse group specifier" that carries the string. A string that has it, with
  T and N the two numbers, yields the pair (T, N) exactly when 1 \<le> T \<le> N \<le> 16 and N > 1
  implies T \<noteq> 1, and fails with another diagnostic otherwise. Every string of the exact
  form T-of-N has the shape, and for the decimal writing of two naturals the outcome is
  decided by these bounds.
\<close>

theorem parse_group_spec_shape:
  "((\<forall>T N. \<not> scanf_shape s T N) \<longrightarrow> parse_group_spec s = Inl (CouldNotParseGroup s))
   \<and> (scanf_shape s T N \<longrightarrow>
        parse_group_spec s =
          (if 1 \<le> T \<and> T \<le> N \<and> N \<le> 16 \<and> (N > 1 \<longrightarrow> T \<noteq> 1)
             then Inr \<lparr>g_threshold = nat T, g_count = nat N, g_passwords = None\<rparr>
           else if 1 \<le> T \<and> T \<le> N \<and> N \<le> 16 then Inl InvalidGroupOneOfM
           else Inl (InvalidGroupBounds s)))
   \<and> (exact_T_of_N s \<longrightarrow> (\<exists>T N. scanf_shape s T N \<and> 0 \<le> T \<and> 0 \<le> N))
   \<and> exact_T_of_N (show_nat t @ ''-of-'' @ show_nat n)
   \<and> parse_group_spec (show_nat t @ ''-of-'' @ show_nat n) =
       (if 1 \<le> t \<and> t \<le> n \<and> n \<le> 16 \<and> (n > 1 \<longrightarrow> t \<noteq> 1)
          then Inr \<lparr>g_threshold = t, g_count = n, g_passwords = None\<rparr>
        else if 1 \<le> t \<and> t \<le> n \<and> n \<le> 16 then Inl InvalidGroupOneOfM
        else Inl (InvalidGroupBounds (show_nat t @ ''-of-'' @ show_nat n)))"
proof (intro conjI impI)
  assume no: "\<forall>T N. \<not> scanf_shape s T N"
  have "match_T_of_N s = None"
  proof (cases "match_T_of_N s")
    case None
    then show ?thesis .
  next
    case (Some TN)
    obtain T' N' where "TN = (T', N')" by (cases TN)
    with Some have "scanf_shape s T' N'" by (simp add: match_T_of_N_iff)
    with no show ?thesis by blast
  qed
  then show "parse_group_spec s = Inl (CouldNotParseGroup s)"
    by (simp add: parse_group_spec_eq [of s])
next
  assume "scanf_shape s T N"
  then have "match_T_of_N s = Some (T, N)" by (simp only: match_T_of_N_iff)
  then show "parse_group_spec s =
          (if 1 \<le> T \<and> T \<le> N \<and> N \<le> 16 \<and> (N > 1 \<longrightarrow> T \<noteq> 1)
             then Inr \<lparr>g_threshold = nat T, g_count = nat N, g_passwords = None\<rparr>
           else if 1 \<le> T \<and> T \<le> N \<and> N \<le> 16 then Inl InvalidGroupOneOfM
           else Inl (InvalidGroupBounds s))"
    by (simp add: parse_group_spec_eq [of s])
next
  assume "exact_T_of_N s"
  then show "\<exists>T N. scanf_shape s T N \<and> 0 \<le> T \<and> 0 \<le> N" by (rule exact_is_scanf_shape)
next
  show "exact_T_of_N (show_nat t @ ''-of-'' @ show_nat n)" by (rule show_nat_exact)
next
  define str where "str = show_nat t @ ''-of-'' @ show_nat n"
  have m: "match_T_of_N str = Some (int t, int n)"
    unfolding str_def by (rule match_T_of_N_show_nat)
  have "parse_group_spec str =
       (if 1 \<le> t \<and> t \<le> n \<and> n \<le> 16 \<and> (n > 1 \<longrightarrow> t \<noteq> 1)
          then Inr \<lparr>g_threshold = t, g_count = n, g_passwords = None\<rparr>
        else if 1 \<le> t \<and> t \<le> n \<and> n \<le> 16 then Inl InvalidGroupOneOfM
        else Inl (InvalidGroupBounds str))"
    by (simp add: parse_group_spec_eq [of str] m)
  then show "parse_group_spec (show_nat t @ ''-of-'' @ show_nat n) =
       (if 1 \<le> t \<and> t \<le> n \<and> n \<le> 16 \<and> (n > 1 \<longrightarrow> t \<noteq> 1)
          then Inr \<lparr>g_threshold = t, g_count = n, g_passwords = None\<rparr>
        else if 1 \<le> t \<and> t \<le> n \<and> n \<le> 16 then Inl InvalidGroupOneOfM
        else Inl (InvalidGroupBounds (show_nat t @ ''-of-'' @ show_nat n)))"
    unfolding str_def .
qed

lemmas scan_eval =
  match_T_of_N_def scan_int_def scan_sign_def isspace_def isdigit_def digit_val_def
  dec_value_def

theorem parse_group_spec_shape_witness:
  "parse_group_spec ''1-of-1'' = Inr \<lparr>g_threshold = 1, g_count = 1, g_passwords = None\<rparr>
   \<and> parse_group_spec ''1-of-2'' = Inl InvalidGroupOneOfM
   \<and> parse_group_spec ''16-of-16'' =
       Inr \<lparr>g_threshold = 16, g_count = 16, g_passwords = None\<rparr>
   \<and> parse_group_spec ''17-of-16'' = Inl (InvalidGroupBounds ''17-of-16'')
   \<and> parse_group_spec ''two-of-3'' = Inl (CouldNotParseGroup ''two-of-3'')
   \<and> parse_group_spec ''2 -of-3'' = Inl (CouldNotParseGroup ''2 -of-3'')
   \<and> parse_group_spec '' +2-of- +3'' =
       Inr \<lparr>g_threshold = 2, g_count = 3, g_passwords = None\<rparr>
   \<and> parse_group_spec ''2-of-3-of-4'' =
       Inr \<lparr>g_threshold = 2, g_count = 3, g_passwords = None\<rparr>
   \<and> parse_group_spec ''-1-of-5'' = Inl (InvalidGroupBounds ''-1-of-5'')"
proof -
  have sh: "scanf_shape ''1-of-1'' 1 1" "scanf_shape ''1-of-2'' 1 2"
    "scanf_shape ''16-of-16'' 16 16" "scanf_shape ''17-of-16'' 17 16"
    "scanf_shape '' +2-of- +3'' 2 3" "scanf_shape ''2-of-3-of-4'' 2 3"
    "scanf_shape ''-1-of-5'' (- 1) 5"
    by (simp_all add: match_T_of_N_iff [symmetric] scan_eval)
  have no: "\<forall>T N. \<not> scanf_shape ''two-of-3'' T N" "\<forall>T N. \<not> scanf_shape ''2 -of-3'' T N"
    by (simp_all add: match_T_of_N_iff [symmetric] scan_eval)
  show ?thesis
    using parse_group_spec_shape [of "''1-of-1''" 1 1] parse_group_spec_shape [of "''1-of-2''" 1 2]
      parse_group_spec_shape [of "''16-of-16''" 16 16]
      parse_group_spec_shape [of "''17-of-16''" 17 16]
      parse_group_spec_shape [of "''two-of-3''"] parse_group_spec_shape [of "''2 -of-3''"]
      parse_group_spec_shape [of "'' +2-of- +3''" 2 3]
      parse_group_spec_shape [of "''2-of-3-of-4''" 2 3]
      parse_group_spec_shape [of "''-1-of-5''" "- 1" 5]
      sh no
    by simp
qed

text \<open>The claim as it was worded fails at \<^verbatim>\<open>2-of-3xyz\<close>: the string is not of the exact form
  T-of-N, and it is parsed as the group 2-of-3 instead of being refused.\<close>

theorem group_spec_trailing_counterexample:
  "\<not> exact_T_of_N ''2-of-3xyz''
   \<and> parse_group_spec ''2-of-3xyz'' =
       Inr \<lparr>g_threshold = 2, g_count = 3, g_passwords = None\<rparr>
   \<and> parse_group_spec ''2-of-3xyz'' \<noteq> Inl (CouldNotParseGroup ''2-of-3xyz'')"
proof -
  have a: "\<not> exact_T_of_N ''2-of-3xyz''"
  proof
    assume "exact_T_of_N ''2-of-3xyz''"
    then obtain ds1 ds2 where
      s: "''2-of-3xyz'' = ds1 @ ''-of-'' @ ds2" and d: "ds2 \<noteq> []" "set ds2 \<subseteq> set digit_chars"
      unfolding exact_T_of_N_def by blast
    from d(1) have l: "last (ds1 @ ''-of-'' @ ds2) = last ds2" by simp
    have z: "last ''2-of-3xyz'' = CHR ''z''" by simp
    from s have "last ''2-of-3xyz'' = last (ds1 @ ''-of-'' @ ds2)"
      by (rule arg_cong [where f = last])
    with l z have "last ds2 = CHR ''z''" by (simp only:)
    moreover from d have "last ds2 \<in> set digit_chars" by auto
    ultimately show False by (simp add: digit_chars_def)
  qed
  have m: "match_T_of_N ''2-of-3xyz'' = Some (2, 3)" by (simp add: scan_eval)
  have b: "parse_group_spec ''2-of-3xyz'' =
      Inr \<lparr>g_threshold = 2, g_count = 3, g_passwords = None\<rparr>"
    by (simp add: parse_group_spec_eq [of "''2-of-3xyz''"] m)
  from a b show ?thesis by simp
qed

subsection \<open>Count resolution\<close>

lemma validate_count_fails:
  "validate_count p = Inl e \<Longrightarrow> validate E p = Inl e"
  by (simp add: validate_def bind_step_def)

lemma parse_opt_END_fails:
  "validate E p = Inl e \<Longrightarrow>
   parse_opt_END E p = (case e of Exception x \<Rightarrow> Inl (ArgpWhat (what x)) | _ \<Rightarrow> Inl e)"
  by (cases e) (simp_all add: parse_opt_END_def)

text \<open>
  Claim C5, as amended. Without a count string the count is 16. A count string whose
  leading integer (as \<^verbatim>\<open>std::stoi\<close> reads it) lies in 1..64 resolves to that integer. One
  whose integer fits an \<^verbatim>\<open>int\<close> and lies outside 1..64 fails with "COUNT must be in
  [1-64]." A string with no leading integer, or with one that does not fit an \<^verbatim>\<open>int\<close>,
  makes \<^verbatim>\<open>std::stoi\<close> throw; the handler of \<^verbatim>\<open>parse_opt\<close> reports the exception's own
  text as a fatal error, not the COUNT message.
\<close>

theorem validate_count_resolution:
  "(r_count (raw p) = [] \<longrightarrow> validate_count p = Inr (p\<lparr>count := 16\<rparr>))
   \<and> (r_count (raw p) \<noteq> [] \<longrightarrow>
        (case scan_int (r_count (raw p)) of
           None \<Rightarrow>
             validate_count p = Inl (Exception (invalid_argument ''stoi''))
             \<and> parse_opt_END E p = Inl (ArgpWhat ''stoi'')
         | Some (v, r) \<Rightarrow>
             if 1 \<le> v \<and> v \<le> 64 then validate_count p = Inr (p\<lparr>count := v\<rparr>)
             else if - (2 ^ 31) \<le> v \<and> v \<le> 2 ^ 31 - 1
               then validate_count p = Inl CountRange \<and> parse_opt_END E p = Inl CountRange
             else validate_count p = Inl (Exception (out_of_range ''stoi''))
                  \<and> parse_opt_END E p = Inl (ArgpWhat ''stoi'')))"
proof (intro conjI impI)
  assume "r_count (raw p) = []"
  then show "validate_count p = Inr (p\<lparr>count := 16\<rparr>)" by (simp add: validate_count_def)
next
  assume ne: "r_count (raw p) \<noteq> []"
  show "case scan_int (r_count (raw p)) of
           None \<Rightarrow>
             validate_count p = Inl (Exception (invalid_argument ''stoi''))
             \<and> parse_opt_END E p = Inl (ArgpWhat ''stoi'')
         | Some (v, r) \<Rightarrow>
             if 1 \<le> v \<and> v \<le> 64 then validate_count p = Inr (p\<lparr>count := v\<rparr>)
             else if - (2 ^ 31) \<le> v \<and> v \<le> 2 ^ 31 - 1
               then validate_count p = Inl CountRange \<and> parse_opt_END E p = Inl CountRange
             else validate_count p = Inl (Exception (out_of_range ''stoi''))
                  \<and> parse_opt_END E p = Inl (ArgpWhat ''stoi'')"
  proof (cases "scan_int (r_count (raw p))")
    case None
    with ne have a: "validate_count p = Inl (Exception (invalid_argument ''stoi''))"
      by (simp add: validate_count_def stoi_def)
    from parse_opt_END_fails [OF validate_count_fails [OF a], of E] a None
    show ?thesis by simp
  next
    case (Some vr)
    obtain v r where vr: "vr = (v, r)" by (cases vr)
    consider (ok) "1 \<le> v \<and> v \<le> 64"
      | (range) "\<not> (1 \<le> v \<and> v \<le> 64)" "- (2 ^ 31) \<le> v \<and> v \<le> 2 ^ 31 - 1"
      | (big) "\<not> (- (2 ^ 31) \<le> v \<and> v \<le> 2 ^ 31 - 1)" by blast
    then show ?thesis
    proof cases
      case ok
      with ne Some vr show ?thesis by (simp add: validate_count_def stoi_def)
    next
      case range
      with ne Some vr have a: "validate_count p = Inl CountRange"
        by (auto simp: validate_count_def stoi_def)
      from parse_opt_END_fails [OF validate_count_fails [OF a], of E] a range Some vr
      show ?thesis by simp
    next
      case big
      with ne Some vr have a: "validate_count p = Inl (Exception (out_of_range ''stoi''))"
        by (auto simp: validate_count_def stoi_def)
      from big have "\<not> (1 \<le> v \<and> v \<le> 64)" by auto
      with parse_opt_END_fails [OF validate_count_fails [OF a], of E] a big Some vr
      show ?thesis by simp
    qed
  qed
qed

theorem validate_count_resolution_witness:
  "validate_count (count_of []) = Inr ((count_of [])\<lparr>count := 16\<rparr>)
   \<and> validate_count (count_of ''1'') = Inr ((count_of ''1'')\<lparr>count := 1\<rparr>)
   \<and> validate_count (count_of ''64'') = Inr ((count_of ''64'')\<lparr>count := 64\<rparr>)
   \<and> parse_opt_END sample_env (count_of ''65'') = Inl CountRange
   \<and> parse_opt_END sample_env (count_of ''0'') = Inl CountRange
   \<and> parse_opt_END sample_env (count_of ''-3'') = Inl CountRange
   \<and> parse_opt_END sample_env (count_of ''sixteen'') = Inl (ArgpWhat ''stoi'')
   \<and> parse_opt_END sample_env (count_of ''99999999999'') = Inl (ArgpWhat ''stoi'')"
  using validate_count_resolution [of "count_of []" sample_env]
    validate_count_resolution [of "count_of ''1''" sample_env]
    validate_count_resolution [of "count_of ''64''" sample_env]
    validate_count_resolution [of "count_of ''65''" sample_env]
    validate_count_resolution [of "count_of ''0''" sample_env]
    validate_count_resolution [of "count_of ''-3''" sample_env]
    validate_count_resolution [of "count_of ''sixteen''" sample_env]
    validate_count_resolution [of "count_of ''99999999999''" sample_env]
  by (simp add: count_of_def new_Params_def no_options_def scan_int_def scan_sign_def
      isspace_def isdigit_def digit_val_def dec_value_def)

text \<open>The claim as it was worded fails at the count string \<^verbatim>\<open>abc\<close>: the run ends with the
  text of the exception, which is not the COUNT message.\<close>

theorem count_non_numeric_counterexample:
  "r_count (raw count_abc) = ''abc''
   \<and> scan_int ''abc'' = None
   \<and> validate_count count_abc \<noteq> Inl CountRange
   \<and> parse_opt_END sample_env count_abc = Inl (ArgpWhat ''stoi'')
   \<and> message (ArgpWhat ''stoi'') \<noteq> message CountRange"
  by (simp add: count_abc_def new_Params_def no_options_def eval_defs validate_count_def
      stoi_def parse_opt_END_def validate_def bind_step_def)

subsection \<open>Input acquisition\<close>

lemma getline_loop_all: "getline_loop lines args = ([], args @ lines)"
  by (induction lines arbitrary: args) simp_all

lemma read_args_from_stdin_eq:
  "read_args_from_stdin p = p\<lparr>raw := (raw p)\<lparr>r_args := r_args (raw p) @ cin p\<rparr>, cin := []\<rparr>"
  by (simp add: read_args_from_stdin_def getline_loop_all)

text \<open>
  Claim C6. With the random input format any positional argument is fatal. With every
  other input format (also the one still to be decoded) the input is the positional
  arguments, or all lines of standard input when there are none; an empty input is the
  fatal "No input provided."; with the resource flag set the acquired input is decoded,
  after the acquisition, and its type tag fixes the input format: the seed tag gives hex,
  the two word-list tags give BIP39 and SLIP39, any other tag is the fatal unknown-type
  error.
\<close>

theorem validate_input_acquisition:
  "(is_random (input_format p) \<longrightarrow>
      validate_input E p = (if r_args (raw p) \<noteq> [] then Inl NoArgsForRandom else Inr p))
   \<and> (\<not> is_random (input_format p) \<longrightarrow>
        (let acquired = (if r_args (raw p) = [] then cin p else r_args (raw p));
             p2 = p\<lparr>raw := (raw p)\<lparr>r_args := acquired\<rparr>, input := acquired,
                    cin := (if r_args (raw p) = [] then [] else cin p)\<rparr>
         in validate_input E p =
            (if acquired = [] then Inl NoInput
             else if \<not> is_ur_in p then Inr p2
             else
               (case new_UR E acquired of
                  Inl e \<Rightarrow> Inl (Exception e)
                | Inr ty \<Rightarrow>
                    (case tag_format E ty of
                       None \<Rightarrow> Inl UnknownURType
                     | Some f \<Rightarrow> Inr (p2\<lparr>ur := Some ty, input_format := Some f\<rparr>))))))"
proof (intro conjI impI)
  assume "is_random (input_format p)"
  then show "validate_input E p = (if r_args (raw p) \<noteq> [] then Inl NoArgsForRandom else Inr p)"
    by (simp add: validate_input_def)
next
  assume nr: "\<not> is_random (input_format p)"
  show "let acquired = (if r_args (raw p) = [] then cin p else r_args (raw p));
             p2 = p\<lparr>raw := (raw p)\<lparr>r_args := acquired\<rparr>, input := acquired,
                    cin := (if r_args (raw p) = [] then [] else cin p)\<rparr>
         in validate_input E p =
            (if acquired = [] then Inl NoInput
             else if \<not> is_ur_in p then Inr p2
             else
               (case new_UR E acquired of
                  Inl e \<Rightarrow> Inl (Exception e)
                | Inr ty \<Rightarrow>
                    (case tag_format E ty of
                       None \<Rightarrow> Inl UnknownURType
                     | Some f \<Rightarrow> Inr (p2\<lparr>ur := Some ty, input_format := Some f\<rparr>))))"
  proof (cases "r_args (raw p) = []")
    case True
    with nr show ?thesis
      by (simp add: validate_input_def read_args_from_stdin_eq tag_format_def Let_def
          split: sum.splits)
  next
    case False
    with nr show ?thesis
      by (simp add: validate_input_def tag_format_def Let_def split: sum.splits)
  qed
qed

theorem validate_input_acquisition_witness:
  "validate_input sample_env ((with_input [] [''x''] [])\<lparr>input_format := Some FormatRandom\<rparr>)
     = Inl NoArgsForRandom
   \<and> validate_input sample_env ((with_input ''hex'' [] [])\<lparr>input_format := Some FormatHex\<rparr>)
     = Inl NoInput
   \<and> (\<exists>q. validate_input sample_env
            ((with_input ''hex'' [] [''dead'', ''beef''])\<lparr>input_format := Some FormatHex\<rparr>)
          = Inr q \<and> input q = [''dead'', ''beef''] \<and> cin q = [])
   \<and> (\<exists>q. validate_input sample_env
            ((with_input ''ur'' [''ur:crypto-bip39/abc''] [])\<lparr>is_ur_in := True\<rparr>)
          = Inr q \<and> input_format q = Some FormatBIP39 \<and> ur q = Some ''crypto-bip39'')
   \<and> validate_input sample_env
        ((with_input ''ur'' [] [''ur:crypto-psbt/abc''])\<lparr>is_ur_in := True\<rparr>)
     = Inl UnknownURType"
  using
    validate_input_acquisition [of "(with_input [] [''x''] [])\<lparr>input_format := Some FormatRandom\<rparr>" sample_env]
    validate_input_acquisition [of "(with_input ''hex'' [] [])\<lparr>input_format := Some FormatHex\<rparr>" sample_env]
    validate_input_acquisition [of "(with_input ''hex'' [] [''dead'', ''beef''])\<lparr>input_format := Some FormatHex\<rparr>" sample_env]
    validate_input_acquisition [of "(with_input ''ur'' [''ur:crypto-bip39/abc''] [])\<lparr>is_ur_in := True\<rparr>" sample_env]
    validate_input_acquisition [of "(with_input ''ur'' [] [''ur:crypto-psbt/abc''])\<lparr>is_ur_in := True\<rparr>" sample_env]
  by (simp add: with_input_def new_Params_def no_options_def sample_env_def sample_new_UR_def
      tag_format_def Let_def)

subsection \<open>The range of the integer list\<close>

lemma stoi_throws:
  "stoi s = Inl e \<Longrightarrow>
   what e = ''stoi''
   \<and> (scan_int s = None
      \<or> (\<exists>v r. scan_int s = Some (v, r) \<and> (v < - (2 ^ 31) \<or> 2 ^ 31 - 1 < v)))"
  by (auto simp: stoi_def split: option.splits if_splits)

text \<open>
  Claim C7, as amended. When the output format is the integer list, the low and high
  bounds are the raw overrides as \<^verbatim>\<open>std::stoi\<close> reads them where given and the defaults of
  the format otherwise, and the step succeeds exactly when 0 \<le> low < high \<le> 255, failing
  with the range diagnostic otherwise. An override that \<^verbatim>\<open>std::stoi\<close> cannot read (no
  leading integer, or one that does not fit an \<^verbatim>\<open>int\<close>) makes it throw before any range
  test, and the run ends with the text of the exception. When the output format is
  another one, a given \<^verbatim>\<open>--low\<close> or \<^verbatim>\<open>--high\<close> is a fatal error, and without them the step
  changes nothing.
\<close>

theorem validate_ints_range:
  "(\<forall>l0 h0 low high.
      output_format p = Some (FormatInts l0 h0)
      \<and> (if r_ints_low (raw p) = [] then low = l0 else stoi (r_ints_low (raw p)) = Inr low)
      \<and> (if r_ints_high (raw p) = [] then high = h0
          else stoi (r_ints_high (raw p)) = Inr high)
      \<longrightarrow> validate_ints_specific p =
            (if 0 \<le> low \<and> low < high \<and> high \<le> 255
             then Inr (p\<lparr>output_format := Some (FormatInts low high)\<rparr>)
             else Inl IntsRange))
   \<and> (\<forall>l0 h0 q.
        output_format p = Some (FormatInts l0 h0) \<and> validate_ints_specific p = Inr q
        \<longrightarrow> (\<exists>low high. output_format q = Some (FormatInts low high)
               \<and> 0 \<le> low \<and> low < high \<and> high \<le> 255
               \<and> (r_ints_low (raw p) = [] \<longrightarrow> low = l0)
               \<and> (r_ints_high (raw p) = [] \<longrightarrow> high = h0)))
   \<and> (\<forall>l0 h0 e.
        output_format p = Some (FormatInts l0 h0)
        \<and> r_ints_low (raw p) \<noteq> [] \<and> stoi (r_ints_low (raw p)) = Inl e
        \<longrightarrow> validate_ints_specific p = Inl (Exception e) \<and> what e = ''stoi''
            \<and> (scan_int (r_ints_low (raw p)) = None
               \<or> (\<exists>v r. scan_int (r_ints_low (raw p)) = Some (v, r)
                      \<and> (v < - (2 ^ 31) \<or> 2 ^ 31 - 1 < v))))
   \<and> (\<forall>l0 h0 e.
        output_format p = Some (FormatInts l0 h0)
        \<and> (r_ints_low (raw p) = [] \<or> (\<exists>low. stoi (r_ints_low (raw p)) = Inr low))
        \<and> r_ints_high (raw p) \<noteq> [] \<and> stoi (r_ints_high (raw p)) = Inl e
        \<longrightarrow> validate_ints_specific p = Inl (Exception e) \<and> what e = ''stoi''
            \<and> (scan_int (r_ints_high (raw p)) = None
               \<or> (\<exists>v r. scan_int (r_ints_high (raw p)) = Some (v, r)
                      \<and> (v < - (2 ^ 31) \<or> 2 ^ 31 - 1 < v))))
   \<and> ((\<forall>l h. output_format p \<noteq> Some (FormatInts l h)) \<longrightarrow>
        validate_ints_specific p =
          (if r_ints_low (raw p) \<noteq> [] then Inl LowOnlyInts
           else if r_ints_high (raw p) \<noteq> [] then Inl HighOnlyInts
           else Inr p))"
proof (intro conjI allI impI)
  fix l0 h0 low high
  assume "output_format p = Some (FormatInts l0 h0)
      \<and> (if r_ints_low (raw p) = [] then low = l0 else stoi (r_ints_low (raw p)) = Inr low)
      \<and> (if r_ints_high (raw p) = [] then high = h0
          else stoi (r_ints_high (raw p)) = Inr high)"
  then show "validate_ints_specific p =
            (if 0 \<le> low \<and> low < high \<and> high \<le> 255
             then Inr (p\<lparr>output_format := Some (FormatInts low high)\<rparr>)
             else Inl IntsRange)"
    by (auto simp: validate_ints_specific_def split: if_splits)
next
  fix l0 h0 q
  assume "output_format p = Some (FormatInts l0 h0) \<and> validate_ints_specific p = Inr q"
  then show "\<exists>low high. output_format q = Some (FormatInts low high)
               \<and> 0 \<le> low \<and> low < high \<and> high \<le> 255
               \<and> (r_ints_low (raw p) = [] \<longrightarrow> low = l0)
               \<and> (r_ints_high (raw p) = [] \<longrightarrow> high = h0)"
    by (auto simp: validate_ints_specific_def split: if_splits sum.splits)
next
  fix l0 h0 e
  assume a: "output_format p = Some (FormatInts l0 h0)
        \<and> r_ints_low (raw p) \<noteq> [] \<and> stoi (r_ints_low (raw p)) = Inl e"
  then show "validate_ints_specific p = Inl (Exception e)"
    by (simp add: validate_ints_specific_def)
  from a have "stoi (r_ints_low (raw p)) = Inl e" by simp
  from stoi_throws [OF this]
  show "what e = ''stoi''"
    and "scan_int (r_ints_low (raw p)) = None
               \<or> (\<exists>v r. scan_int (r_ints_low (raw p)) = Some (v, r)
                      \<and> (v < - (2 ^ 31) \<or> 2 ^ 31 - 1 < v))"
    by simp_all
next
  fix l0 h0 e
  assume a: "output_format p = Some (FormatInts l0 h0)
        \<and> (r_ints_low (raw p) = [] \<or> (\<exists>low. stoi (r_ints_low (raw p)) = Inr low))
        \<and> r_ints_high (raw p) \<noteq> [] \<and> stoi (r_ints_high (raw p)) = Inl e"
  then show "validate_ints_specific p = Inl (Exception e)"
    by (auto simp: validate_ints_specific_def)
  from a have "stoi (r_ints_high (raw p)) = Inl e" by simp
  from stoi_throws [OF this]
  show "what e = ''stoi''"
    and "scan_int (r_ints_high (raw p)) = None
               \<or> (\<exists>v r. scan_int (r_ints_high (raw p)) = Some (v, r)
                      \<and> (v < - (2 ^ 31) \<or> 2 ^ 31 - 1 < v))"
    by simp_all
next
  assume n: "\<forall>l h. output_format p \<noteq> Some (FormatInts l h)"
  show "validate_ints_specific p =
          (if r_ints_low (raw p) \<noteq> [] then Inl LowOnlyInts
           else if r_ints_high (raw p) \<noteq> [] then Inl HighOnlyInts
           else Inr p)"
  proof (cases "output_format p")
    case None
    then show ?thesis by (simp add: validate_ints_specific_def)
  next
    case (Some f)
    with n show ?thesis by (cases f) (simp_all add: validate_ints_specific_def)
  qed
qed

theorem validate_ints_range_witness:
  "validate_ints_specific (ints_out ''0'' ''255'') =
     Inr ((ints_out ''0'' ''255'')\<lparr>output_format := Some (FormatInts 0 255)\<rparr>)
   \<and> validate_ints_specific (ints_out [] []) =
     Inr ((ints_out [] [])\<lparr>output_format := Some (FormatInts 1 9)\<rparr>)
   \<and> validate_ints_specific (ints_out ''5'' ''5'') = Inl IntsRange
   \<and> validate_ints_specific (ints_out ''9'' ''3'') = Inl IntsRange
   \<and> validate_ints_specific (ints_out ''0'' ''256'') = Inl IntsRange
   \<and> validate_ints_specific ((ints_out ''0'' [])\<lparr>output_format := Some FormatHex\<rparr>)
       = Inl LowOnlyInts
   \<and> validate_ints_specific ((ints_out [] ''7'')\<lparr>output_format := Some FormatHex\<rparr>)
       = Inl HighOnlyInts
   \<and> validate_ints_specific (ints_out ''low'' ''9'') =
       Inl (Exception (invalid_argument ''stoi''))
   \<and> validate_ints_specific (ints_out ''0'' ''99999999999'') =
       Inl (Exception (out_of_range ''stoi''))"
proof -
  have s: "stoi ''0'' = Inr 0" "stoi ''255'' = Inr 255" "stoi ''5'' = Inr 5"
    "stoi ''9'' = Inr 9" "stoi ''3'' = Inr 3" "stoi ''256'' = Inr 256"
    "stoi ''low'' = Inl (invalid_argument ''stoi'')"
    "stoi ''99999999999'' = Inl (out_of_range ''stoi'')"
    by (simp_all add: stoi_def eval_defs)
  show ?thesis
    using validate_ints_range [of "ints_out ''low'' ''9''"]
      validate_ints_range [of "ints_out ''0'' ''99999999999''"]
      validate_ints_range [of "ints_out ''0'' ''255''"]
      validate_ints_range [of "ints_out [] []"]
      validate_ints_range [of "ints_out ''5'' ''5''"]
      validate_ints_range [of "ints_out ''9'' ''3''"]
      validate_ints_range [of "ints_out ''0'' ''256''"]
      validate_ints_range [of "(ints_out ''0'' [])\<lparr>output_format := Some FormatHex\<rparr>"]
      validate_ints_range [of "(ints_out [] ''7'')\<lparr>output_format := Some FormatHex\<rparr>"]
    by (simp add: ints_out_def new_Params_def no_options_def s)
qed

text \<open>The claim as it was worded fails for \<^verbatim>\<open>--out ints --high 99999999999\<close>: the bound is
  above 255, but the run ends with the text of the exception of \<^verbatim>\<open>std::stoi\<close>, not with
  the range diagnostic.\<close>

theorem ints_high_overflow_counterexample:
  "r_ints_high (raw ints_high_overflow) = ''99999999999''
   \<and> scan_int ''99999999999'' = Some (99999999999, [])
   \<and> parse_opt_END sample_env ints_high_overflow = Inl (ArgpWhat ''stoi'')
   \<and> parse_opt_END sample_env ints_high_overflow \<noteq> Inl IntsRange
   \<and> message (ArgpWhat ''stoi'') \<noteq> message IntsRange"
  by (simp add: ints_high_overflow_def eval_defs)

subsection \<open>UR output\<close>

text \<open>
  Claim C8, as amended. Without the \<^verbatim>\<open>--ur\<close> flag the step does nothing. With the flag,
  resource input (\<^verbatim>\<open>--in ur\<close>) is fatal; otherwise the maximal part length is the raw value
  as \<^verbatim>\<open>std::stoi\<close> reads it when one was given and 2500 when none was, and the step
  succeeds exactly for the output formats hex, BIP39 and SLIP39, failing for every other
  output format with the diagnostic that names the three admissible formats. A given part
  length that \<^verbatim>\<open>std::stoi\<close> cannot read makes it throw before the output format is looked
  at, and the run ends with the text of the exception, whatever the output format.
\<close>

theorem validate_ur_output:
  "(\<not> r_is_ur (raw p) \<longrightarrow> validate_ur p = Inr p)
   \<and> (r_is_ur (raw p) \<and> is_ur_in p \<longrightarrow> validate_ur p = Inl UrWithUrIn)
   \<and> (\<forall>n out.
        r_is_ur (raw p) \<and> \<not> is_ur_in p \<and> output_format p = Some out
        \<and> (if r_max_part_length (raw p) = [] then n = 2500
            else stoi (r_max_part_length (raw p)) = Inr n)
        \<longrightarrow> validate_ur p =
              (if key_of out = Key_hex \<or> key_of out = Key_bip39 \<or> key_of out = Key_slip39
               then Inr (p\<lparr>is_ur_out := True, max_part_length := n\<rparr>)
               else Inl UrOnlyHexBip39Slip39))
   \<and> (\<forall>q out.
        r_is_ur (raw p) \<and> output_format p = Some out \<and> validate_ur p = Inr q
        \<longrightarrow> (key_of out = Key_hex \<or> key_of out = Key_bip39 \<or> key_of out = Key_slip39)
            \<and> \<not> is_ur_in p \<and> is_ur_out q
            \<and> (r_max_part_length (raw p) = [] \<longrightarrow> max_part_length q = 2500))
   \<and> (\<forall>e.
        r_is_ur (raw p) \<and> \<not> is_ur_in p
        \<and> r_max_part_length (raw p) \<noteq> [] \<and> stoi (r_max_part_length (raw p)) = Inl e
        \<longrightarrow> validate_ur p = Inl (Exception e) \<and> what e = ''stoi''
            \<and> (scan_int (r_max_part_length (raw p)) = None
               \<or> (\<exists>v r. scan_int (r_max_part_length (raw p)) = Some (v, r)
                      \<and> (v < - (2 ^ 31) \<or> 2 ^ 31 - 1 < v))))"
proof (intro conjI allI impI)
  assume "\<not> r_is_ur (raw p)"
  then show "validate_ur p = Inr p" by (simp add: validate_ur_def)
next
  assume "r_is_ur (raw p) \<and> is_ur_in p"
  then show "validate_ur p = Inl UrWithUrIn" by (simp add: validate_ur_def)
next
  fix n out
  assume a: "r_is_ur (raw p) \<and> \<not> is_ur_in p \<and> output_format p = Some out
        \<and> (if r_max_part_length (raw p) = [] then n = 2500
            else stoi (r_max_part_length (raw p)) = Inr n)"
  then show "validate_ur p =
              (if key_of out = Key_hex \<or> key_of out = Key_bip39 \<or> key_of out = Key_slip39
               then Inr (p\<lparr>is_ur_out := True, max_part_length := n\<rparr>)
               else Inl UrOnlyHexBip39Slip39)"
    by (cases out) (auto simp: validate_ur_def Let_def split: if_splits)
next
  fix q out
  assume a: "r_is_ur (raw p) \<and> output_format p = Some out \<and> validate_ur p = Inr q"
  then show "key_of out = Key_hex \<or> key_of out = Key_bip39 \<or> key_of out = Key_slip39"
    by (cases out) (auto simp: validate_ur_def Let_def split: if_splits sum.splits)
  from a show "\<not> is_ur_in p"
    by (auto simp: validate_ur_def split: if_splits)
  from a show "is_ur_out q"
    by (auto simp: validate_ur_def Let_def split: if_splits sum.splits)
next
  fix q out
  assume a: "r_is_ur (raw p) \<and> output_format p = Some out \<and> validate_ur p = Inr q"
    and "r_max_part_length (raw p) = []"
  then show "max_part_length q = 2500"
    by (auto simp: validate_ur_def Let_def split: if_splits sum.splits)
next
  fix e
  assume a: "r_is_ur (raw p) \<and> \<not> is_ur_in p
        \<and> r_max_part_length (raw p) \<noteq> [] \<and> stoi (r_max_part_length (raw p)) = Inl e"
  then show "validate_ur p = Inl (Exception e)"
    by (simp add: validate_ur_def)
  from a have "stoi (r_max_part_length (raw p)) = Inl e" by simp
  from stoi_throws [OF this]
  show "what e = ''stoi''"
    and "scan_int (r_max_part_length (raw p)) = None
               \<or> (\<exists>v r. scan_int (r_max_part_length (raw p)) = Some (v, r)
                      \<and> (v < - (2 ^ 31) \<or> 2 ^ 31 - 1 < v))"
    by simp_all
qed

theorem validate_ur_output_witness:
  "validate_ur (ur_out FormatHex []) =
     Inr ((ur_out FormatHex [])\<lparr>is_ur_out := True, max_part_length := 2500\<rparr>)
   \<and> validate_ur (ur_out FormatBIP39 ''300'') =
     Inr ((ur_out FormatBIP39 ''300'')\<lparr>is_ur_out := True, max_part_length := 300\<rparr>)
   \<and> validate_ur (ur_out FormatBits []) = Inl UrOnlyHexBip39Slip39
   \<and> validate_ur (ur_out FormatBC32 []) = Inl UrOnlyHexBip39Slip39
   \<and> validate_ur ((ur_out FormatHex [])\<lparr>is_ur_in := True\<rparr>) = Inl UrWithUrIn
   \<and> validate_ur (ur_out FormatHex ''abc'') = Inl (Exception (invalid_argument ''stoi''))
   \<and> validate_ur (ur_out FormatBits ''abc'') = Inl (Exception (invalid_argument ''stoi''))"
proof -
  have s: "stoi ''300'' = Inr 300" "stoi ''abc'' = Inl (invalid_argument ''stoi'')"
    by (simp_all add: stoi_def eval_defs)
  show ?thesis
    using validate_ur_output [of "ur_out FormatHex ''abc''"]
      validate_ur_output [of "ur_out FormatBits ''abc''"]
      validate_ur_output [of "ur_out FormatHex []"]
      validate_ur_output [of "ur_out FormatBIP39 ''300''"]
      validate_ur_output [of "ur_out FormatBits []"]
      validate_ur_output [of "ur_out FormatBC32 []"]
      validate_ur_output [of "(ur_out FormatHex [])\<lparr>is_ur_in := True\<rparr>"]
    by (simp add: ur_out_def new_Params_def no_options_def s)
qed

text \<open>The claim as it was worded fails for \<^verbatim>\<open>--ur=abc --out bits\<close>: the flag is set and the
  output format is none of the three, but the run ends with the text of the exception of
  \<^verbatim>\<open>std::stoi\<close>, not with the diagnostic of the \<^verbatim>\<open>--ur\<close> option.\<close>

theorem ur_part_length_counterexample:
  "r_is_ur (raw ur_abc_bits)
   \<and> validate_output_format sample_env ur_abc_bits =
       Inr (ur_abc_bits\<lparr>output_format := Some FormatBits\<rparr>)
   \<and> parse_opt_END sample_env ur_abc_bits = Inl (ArgpWhat ''stoi'')
   \<and> parse_opt_END sample_env ur_abc_bits \<noteq> Inl UrOnlyHexBip39Slip39
   \<and> message (ArgpWhat ''stoi'') \<noteq> message UrOnlyHexBip39Slip39"
  by (simp add: ur_abc_bits_def eval_defs)

subsection \<open>SLIP39 groups\<close>





text \<open>
  Claim C9. With SLIP39 output and a count that fails the SLIP39 seed-length test, the
  diagnostic should name SLIP39. The run below (\<^verbatim>\<open>--out slip39 --count 15\<close>) ends in the
  SLIP39 step, and the text it prints names BIP39 and does not mention SLIP39.
\<close>

theorem slip39_count_message:
  "parse_opt_END sample_env slip39_count_15 = Inl Slip39Count
   \<and> message Slip39Count = ''For BIP39 COUNT must be in [16-32] and even.''
   \<and> mentions ''BIP39'' (message Slip39Count)
   \<and> \<not> mentions ''SLIP39'' (message Slip39Count)"
  by (simp add: slip39_count_15_def eval_defs)

subsection \<open>Count against the input format\<close>

lemma validate_count_raw: "validate_count p = Inr q \<Longrightarrow> raw q = raw p"
  by (auto simp: validate_count_def split: sum.splits if_splits)

lemma validate_deterministic_raw: "validate_deterministic p = Inr q \<Longrightarrow> raw q = raw p"
  by (auto simp: validate_deterministic_def split: if_splits)

lemma validate_input_format_raw: "validate_input_format E p = Inr q \<Longrightarrow> raw q = raw p"
  by (auto simp: validate_input_format_def split: if_splits option.splits)

lemma validate_input_r_count:
  "validate_input E p = Inr q \<Longrightarrow> r_count (raw q) = r_count (raw p)"
  by (auto simp: validate_input_def read_args_from_stdin_eq Let_def
      split: if_splits sum.splits)

lemma resolve_input_r_count:
  assumes "resolve_input E p = Inr q"
  shows "r_count (raw q) = r_count (raw p)"
proof -
  from assms obtain p1 p2 p3 where
    s: "validate_count p = Inr p1" "validate_deterministic p1 = Inr p2"
       "validate_input_format E p2 = Inr p3" "validate_input E p3 = Inr q"
    by (auto simp: resolve_input_def bind_step_def split: sum.splits)
  from validate_count_raw [OF s(1)] validate_deterministic_raw [OF s(2)]
    validate_input_format_raw [OF s(3)] validate_input_r_count [OF s(4)]
  show ?thesis by simp
qed

lemma validate_after_resolve_input:
  "resolve_input E p = Inr q \<Longrightarrow> validate_count_for_input_format q = Inl e \<Longrightarrow>
   validate E p = Inl e"
  by (simp add: validate_def resolve_input_def bind_step_def)

text \<open>
  Claim C10, as amended. The step \<^verbatim>\<open>validate_count_for_input_format\<close> looks only at
  whether the raw count string is empty, never at its value, and at the input format as
  it stands after the resource was decoded. For a whole invocation: when the first four
  steps succeed (so the count string passed count resolution) and leave a hex or BC32
  input format, and a count was given, validation fails with the count diagnostic of that
  format; this holds for the count 16 and for a hex format that came from the type tag of
  \<^verbatim>\<open>--in ur\<close>. A count that fails count resolution is reported by that earlier step.
\<close>

theorem count_for_input_format_presence:
  "(is_hex (input_format q) \<and> r_count (raw q) \<noteq> [] \<longrightarrow>
      validate_count_for_input_format q = Inl CountNotForHex)
   \<and> (is_bc32 (input_format q) \<and> r_count (raw q) \<noteq> [] \<longrightarrow>
      validate_count_for_input_format q = Inl CountNotForBC32)
   \<and> (r_count (raw q) = [] \<longrightarrow> validate_count_for_input_format q = Inr q)
   \<and> (\<forall>q'. resolve_input E p = Inr q' \<and> r_count (raw p) \<noteq> [] \<and> is_hex (input_format q')
        \<longrightarrow> validate E p = Inl CountNotForHex \<and> parse_opt_END E p = Inl CountNotForHex)
   \<and> (\<forall>q'. resolve_input E p = Inr q' \<and> r_count (raw p) \<noteq> [] \<and> is_bc32 (input_format q')
        \<longrightarrow> validate E p = Inl CountNotForBC32 \<and> parse_opt_END E p = Inl CountNotForBC32)"
proof -
  have hex: "validate_count_for_input_format x = Inl CountNotForHex"
    if "is_hex (input_format x)" "r_count (raw x) \<noteq> []" for x
    using that by (simp add: validate_count_for_input_format_def)
  have bc32: "validate_count_for_input_format x = Inl CountNotForBC32"
    if "is_bc32 (input_format x)" "r_count (raw x) \<noteq> []" for x
  proof -
    from that(1) have "\<not> is_hex (input_format x)"
      by (cases "input_format x" rule: is_bc32.cases) simp_all
    with that show ?thesis by (simp add: validate_count_for_input_format_def)
  qed
  have none: "validate_count_for_input_format q = Inr q" if "r_count (raw q) = []"
    using that by (simp add: validate_count_for_input_format_def)
  have whole_hex: "validate E p = Inl CountNotForHex \<and> parse_opt_END E p = Inl CountNotForHex"
    if "resolve_input E p = Inr q'" "r_count (raw p) \<noteq> []" "is_hex (input_format q')" for q'
  proof -
    from resolve_input_r_count [OF that(1)] that(2) have "r_count (raw q') \<noteq> []" by simp
    from validate_after_resolve_input [OF that(1) hex [OF that(3) this]]
    show ?thesis by (simp add: parse_opt_END_def)
  qed
  have whole_bc32: "validate E p = Inl CountNotForBC32 \<and> parse_opt_END E p = Inl CountNotForBC32"
    if "resolve_input E p = Inr q'" "r_count (raw p) \<noteq> []" "is_bc32 (input_format q')" for q'
  proof -
    from resolve_input_r_count [OF that(1)] that(2) have "r_count (raw q') \<noteq> []" by simp
    from validate_after_resolve_input [OF that(1) bc32 [OF that(3) this]]
    show ?thesis by (simp add: parse_opt_END_def)
  qed
  from hex bc32 none whole_hex whole_bc32 show ?thesis by blast
qed

theorem count_for_input_format_presence_witness:
  "parse_opt_END sample_env (count_and_input ''16'' ''hex'' ''deadbeef'') = Inl CountNotForHex
   \<and> parse_opt_END sample_env (count_and_input ''16'' ''ur'' ''ur:crypto-seed/oyadgd'')
       = Inl CountNotForHex
   \<and> parse_opt_END sample_env (count_and_input ''20'' ''bc32'' ''tyadgd'') = Inl CountNotForBC32"
proof -
  have a: "\<exists>q'. resolve_input sample_env (count_and_input ''16'' ''hex'' ''deadbeef'') = Inr q'
      \<and> is_hex (input_format q')"
    by (simp add: resolve_input_def count_and_input_def eval_defs)
  have b: "\<exists>q'. resolve_input sample_env (count_and_input ''16'' ''ur'' ''ur:crypto-seed/oyadgd'')
        = Inr q' \<and> is_hex (input_format q')"
    by (simp add: resolve_input_def count_and_input_def eval_defs)
  have c: "\<exists>q'. resolve_input sample_env (count_and_input ''20'' ''bc32'' ''tyadgd'') = Inr q'
      \<and> is_bc32 (input_format q')"
    by (simp add: resolve_input_def count_and_input_def eval_defs)
  have n: "r_count (raw (count_and_input ''16'' ''hex'' ''deadbeef'')) \<noteq> []"
    "r_count (raw (count_and_input ''16'' ''ur'' ''ur:crypto-seed/oyadgd'')) \<noteq> []"
    "r_count (raw (count_and_input ''20'' ''bc32'' ''tyadgd'')) \<noteq> []"
    by (simp_all add: count_and_input_def new_Params_def no_options_def)
  from a n(1)
    count_for_input_format_presence [of _ sample_env "count_and_input ''16'' ''hex'' ''deadbeef''"]
  have x: "parse_opt_END sample_env (count_and_input ''16'' ''hex'' ''deadbeef'')
      = Inl CountNotForHex" by blast
  from b n(2)
    count_for_input_format_presence [of _ sample_env
      "count_and_input ''16'' ''ur'' ''ur:crypto-seed/oyadgd''"]
  have y: "parse_opt_END sample_env (count_and_input ''16'' ''ur'' ''ur:crypto-seed/oyadgd'')
      = Inl CountNotForHex" by blast
  from c n(3)
    count_for_input_format_presence [of _ sample_env "count_and_input ''20'' ''bc32'' ''tyadgd''"]
  have z: "parse_opt_END sample_env (count_and_input ''20'' ''bc32'' ''tyadgd'')
      = Inl CountNotForBC32" by blast
  from x y z show ?thesis by blast
qed

text \<open>The claim as it was worded fails for \<^verbatim>\<open>--in hex --count 100 deadbeef\<close>: the input
  format is hex and a count was given, but the run ends in the first step with the COUNT
  range message, not with the count diagnostic of the hex format.\<close>

theorem count_for_hex_counterexample:
  "r_count (raw (count_and_input ''100'' ''hex'' ''deadbeef'')) = ''100''
   \<and> validate_input_format sample_env (count_and_input ''100'' ''hex'' ''deadbeef'')
       = Inr ((count_and_input ''100'' ''hex'' ''deadbeef'')\<lparr>input_format := Some FormatHex\<rparr>)
   \<and> validate_count_for_input_format
        ((count_and_input ''100'' ''hex'' ''deadbeef'')\<lparr>input_format := Some FormatHex\<rparr>)
       = Inl CountNotForHex
   \<and> parse_opt_END sample_env (count_and_input ''100'' ''hex'' ''deadbeef'') = Inl CountRange
   \<and> parse_opt_END sample_env (count_and_input ''100'' ''hex'' ''deadbeef'')
       \<noteq> Inl CountNotForHex"
  by (simp add: count_and_input_def eval_defs)

end
